theory Spec2Isabelle
  imports Complex_Main "HOL-Library.Word"
begin

section \<open>JavaScript values used by the services\<close>

text \<open>
  A JavaScript string is a sequence of UTF-16 code units; \<open>text.length\<close> counts code
  units, and a regular expression without the \<open>u\<close> flag works on code units. A string
  is therefore a list of 16-bit words. Source literals are ASCII and are written through
  \<open>js\<close>.

  The counters and time stamps of the services are JavaScript numbers, that is doubles,
  that hold integers: they start at 0 or at a time in milliseconds, and are incremented,
  reset or restored from an export. A field is modelled as the integer it holds; the
  arithmetic on it rounds as the doubles do.
\<close>

type_synonym jschar = "16 word"
type_synonym jsstring = "jschar list"

definition cu :: "char \<Rightarrow> jschar" where
  "cu c = of_nat (of_char c)"

definition js :: "string \<Rightarrow> jsstring" where
  "js = map cu"

text \<open>Number to string conversion of template literals, for integers: decimal digits.\<close>

fun show_nat :: "nat \<Rightarrow> jsstring" where
  "show_nat n = (if n < 10 then [of_nat (48 + n)]
                 else show_nat (n div 10) @ [of_nat (48 + n mod 10)])"

declare show_nat.simps [simp del]


section \<open>Numbers\<close>

text \<open>
  A double has 53 significant bits. \<open>round53\<close> rounds a natural number to 53
  significant bits, to the nearest such number and to the even one of two nearest: the
  rounding of every arithmetic operation on doubles. \<open>bitlen_nat\<close> is the number of bits of
  a number.
\<close>

fun bitlen_nat :: "nat \<Rightarrow> nat" where
  "bitlen_nat n = (if n = 0 then 0 else Suc (bitlen_nat (n div 2)))"

declare bitlen_nat.simps [simp del]

definition round53 :: "nat \<Rightarrow> nat" where
  "round53 n =
     (let b = bitlen_nat n in
      if b \<le> 53 then n
      else let sh = b - 53; q = n div 2 ^ sh; r = n mod 2 ^ sh;
               q' = (if 2 ^ sh < 2 * r \<or> (2 * r = 2 ^ sh \<and> odd q) then q + 1 else q)
           in q' * 2 ^ sh)"

definition round53_int :: "int \<Rightarrow> int" where
  "round53_int i = (if 0 \<le> i then int (round53 (nat i)) else - int (round53 (nat (- i))))"

text \<open>
  \<open>x++\<close> on a field that holds an integer: the sum \<open>x + 1\<close> as a double, which is the
  exact sum rounded. From \<open>2^53\<close> on not every integer is a double.
\<close>

definition js_plus_one :: "int \<Rightarrow> int" where
  "js_plus_one i = round53_int (i + 1)"

text \<open>
  A setting of type \<open>number\<close> is a double. A finite double that is not negative is
  \<open>m * 2^e\<close> for a natural number \<open>m\<close> below \<open>2^53\<close> and an integer \<open>e\<close>; the record holds
  \<open>m\<close> and \<open>e\<close>, and \<open>value_of\<close> is the number.
\<close>

record double =
  significand :: nat
  exponent :: int

definition value_of :: "double \<Rightarrow> real" where
  "value_of t = real (significand t) * 2 powi exponent t"

text \<open>
  \<open>t * 0.7\<close>. The literal \<open>0.7\<close> is the double \<open>3152519739159347 / 2^52\<close>, so the exact
  product is \<open>m * 3152519739159347 * 2^(e - 52)\<close>, and the product of the doubles is the
  exact product rounded to 53 significant bits. (A product below \<open>2^-1022\<close> is rounded to
  fewer bits; it is below 1 either way, and only its floor is used.)
\<close>

definition double_0_7 :: nat where
  "double_0_7 = 3152519739159347"

definition times_0_7 :: "double \<Rightarrow> double" where
  "times_0_7 t =
     \<lparr>significand = round53 (significand t * double_0_7), exponent = exponent t - 52\<rparr>"

text \<open>\<open>Math.floor\<close> of a double that is not negative: an integer.\<close>

definition floor_double :: "double \<Rightarrow> int" where
  "floor_double t =
     (if 0 \<le> exponent t then int (significand t * 2 ^ nat (exponent t))
      else int (significand t div 2 ^ nat (- exponent t)))"


section \<open>ContextService (src/services/ContextService.ts)\<close>

text \<open>
  The private fields of the class. The logger calls of the methods write to an output
  channel only and are left out; \<open>Date.now()\<close> is an argument \<open>now\<close>.
\<close>

record ContextService =
  contextExchangeCount :: int
  sessionStartTime :: int
  lastContextRefresh :: int
  filesProcessed :: int



definition getExchangeCount :: "ContextService \<Rightarrow> int" where
  "getExchangeCount s = contextExchangeCount s"

definition incrementExchangeCount :: "ContextService \<Rightarrow> ContextService" where
  "incrementExchangeCount s =
     s\<lparr>contextExchangeCount := js_plus_one (contextExchangeCount s)\<rparr>"

definition resetExchangeCount :: "int \<Rightarrow> ContextService \<Rightarrow> ContextService" where
  "resetExchangeCount now s = s\<lparr>contextExchangeCount := 0, lastContextRefresh := now\<rparr>"

definition incrementFilesProcessed :: "ContextService \<Rightarrow> ContextService" where
  "incrementFilesProcessed s = s\<lparr>filesProcessed := js_plus_one (filesProcessed s)\<rparr>"

definition resetSession :: "int \<Rightarrow> ContextService \<Rightarrow> ContextService" where
  "resetSession now s =
     s\<lparr>contextExchangeCount := 0, sessionStartTime := now,
       lastContextRefresh := now, filesProcessed := 0\<rparr>"



subsection \<open>Persistence of the session\<close>

record SessionExport =
  x_contextExchangeCount :: int
  x_sessionStartTime :: int
  x_lastContextRefresh :: int
  x_filesProcessed :: int

text \<open>The argument of \<open>importSessionData\<close>: every field is optional.\<close>

record SessionImport =
  i_contextExchangeCount :: "int option"
  i_sessionStartTime :: "int option"
  i_lastContextRefresh :: "int option"
  i_filesProcessed :: "int option"

definition exportSessionData :: "ContextService \<Rightarrow> SessionExport" where
  "exportSessionData s =
     \<lparr>x_contextExchangeCount = contextExchangeCount s,
      x_sessionStartTime = sessionStartTime s,
      x_lastContextRefresh = lastContextRefresh s,
      x_filesProcessed = filesProcessed s\<rparr>"

text \<open>An exported record passed where the import type is expected: every field is present.\<close>

definition asImport :: "SessionExport \<Rightarrow> SessionImport" where
  "asImport d =
     \<lparr>i_contextExchangeCount = Some (x_contextExchangeCount d),
      i_sessionStartTime = Some (x_sessionStartTime d),
      i_lastContextRefresh = Some (x_lastContextRefresh d),
      i_filesProcessed = Some (x_filesProcessed d)\<rparr>"

definition importSessionData :: "SessionImport \<Rightarrow> ContextService \<Rightarrow> ContextService" where
  "importSessionData d s =
     (let s1 = (case i_contextExchangeCount d of
                  Some v \<Rightarrow> s\<lparr>contextExchangeCount := v\<rparr> | None \<Rightarrow> s);
          s2 = (case i_sessionStartTime d of
                  Some v \<Rightarrow> s1\<lparr>sessionStartTime := v\<rparr> | None \<Rightarrow> s1);
          s3 = (case i_lastContextRefresh d of
                  Some v \<Rightarrow> s2\<lparr>lastContextRefresh := v\<rparr> | None \<Rightarrow> s2);
          s4 = (case i_filesProcessed d of
                  Some v \<Rightarrow> s3\<lparr>filesProcessed := v\<rparr> | None \<Rightarrow> s3)
      in s4)"

section \<open>ValidationService (src/services/ValidationService.ts)\<close>

definition dquote :: jschar where
  "dquote = 0x22"

definition squote :: jschar where
  "squote = 0x27"

definition backslash :: jschar where
  "backslash = 0x5C"

text \<open>
  \<open>text.replace(/(?<!\\)"/g, '\\"')\<close>: the pattern is one character long, so the matches
  are the positions of the input that hold a double quote whose predecessor in the input
  is not a backslash; each is replaced by backslash, double quote. \<open>prev\<close> is the
  character of the input before the current position.
\<close>

fun escape_unescaped :: "jschar option \<Rightarrow> jsstring \<Rightarrow> jsstring" where
  "escape_unescaped prev [] = []"
| "escape_unescaped prev (c # cs) =
     (if c = dquote \<and> prev \<noteq> Some backslash then [backslash, dquote] else [c])
       @ escape_unescaped (Some c) cs"

definition fixDoubleQuotes :: "jsstring \<Rightarrow> jsstring" where
  "fixDoubleQuotes text = (if text = [] then text else escape_unescaped None text)"

fun test_unescaped :: "jschar option \<Rightarrow> jsstring \<Rightarrow> bool" where
  "test_unescaped prev [] = False"
| "test_unescaped prev (c # cs) =
     ((c = dquote \<and> prev \<noteq> Some backslash) \<or> test_unescaped (Some c) cs)"

definition hasUnescapedDoubleQuotes :: "jsstring \<Rightarrow> bool" where
  "hasUnescapedDoubleQuotes text = test_unescaped None text"

definition MAX_SAFE_INPUT_SIZE :: nat where
  "MAX_SAFE_INPUT_SIZE = 8000"

definition MIN_CHUNK_SIZE :: nat where
  "MIN_CHUNK_SIZE = 1000"

definition MAX_CHUNK_SIZE :: nat where
  "MAX_CHUNK_SIZE = 10000"

definition CONTEXT_OVERLAP_SIZE :: nat where
  "CONTEXT_OVERLAP_SIZE = 200"

record SizeCheck =
  isLarge :: bool
  suggestion :: "jsstring option"

text \<open>
  \<open>Math.ceil(size / maxSize)\<close> is the ceiling of the quotient; the double quotient of two
  integers below \<open>2^31\<close> (no string is longer) has the ceiling of the exact quotient.
\<close>

definition checkInputSize :: "jsstring \<Rightarrow> SizeCheck" where
  "checkInputSize text =
     (let size = length text; maxSize = MAX_SAFE_INPUT_SIZE
      in if maxSize < size then
           (let ratio = nat \<lceil>real size / real maxSize\<rceil>
            in \<lparr>isLarge = True,
                suggestion = Some (js ''Input is '' @ show_nat size
                  @ js '' characters (recommended max: '' @ show_nat maxSize @ js ''). ''
                  @ js ''Consider breaking this into '' @ show_nat ratio
                  @ js '' smaller tasks to avoid '' @ [dquote] @ js ''too large input''
                  @ [dquote] @ js '' errors and credit consumption.'')\<rparr>)
         else \<lparr>isLarge = False, suggestion = None\<rparr>)"

text \<open>
  \<open>checkSize(text, maxSafeSize)\<close> as the specification words it, with the configured
  maximum as an argument: whether the text is large.
\<close>

definition spec_checkSize_isLarge :: "jsstring \<Rightarrow> nat \<Rightarrow> bool" where
  "spec_checkSize_isLarge text maxSafeSize \<longleftrightarrow> maxSafeSize < length text"

text \<open>
  \<open>s.replace(/c/g, rep)\<close> for a pattern of one literal character and a replacement
  text without \<open>$\<close>: every occurrence of the character becomes \<open>rep\<close>.
\<close>

definition replaceAll_char :: "jschar \<Rightarrow> jsstring \<Rightarrow> jsstring \<Rightarrow> jsstring" where
  "replaceAll_char c rep s = concat (map (\<lambda>x. if x = c then rep else [x]) s)"

definition sanitizeText :: "jsstring \<Rightarrow> jsstring" where
  "sanitizeText text =
     (if text = [] then []
      else replaceAll_char (cu CHR ''/'') (js ''&#x2F;'')
            (replaceAll_char squote (js ''&#x27;'')
              (replaceAll_char dquote (js ''&quot;'')
                (replaceAll_char (cu CHR ''>'') (js ''&gt;'')
                  (replaceAll_char (cu CHR ''<'') (js ''&lt;'') text)))))"

text \<open>What \<open>sanitizeText\<close> writes for one character of its input.\<close>

definition sanitize_char :: "jschar \<Rightarrow> jsstring" where
  "sanitize_char c =
     (if c = cu CHR ''<'' then js ''&lt;''
      else if c = cu CHR ''>'' then js ''&gt;''
      else if c = dquote then js ''&quot;''
      else if c = squote then js ''&#x27;''
      else if c = cu CHR ''/'' then js ''&#x2F;''
      else [c])"

section \<open>Regular expressions\<close>

text \<open>
  The regular expressions of the sources, as syntax trees, and a backtracking matcher that
  returns the ways a pattern can match at a position in the order in which the
  JavaScript matcher tries them: the first is the match JavaScript finds. A state of the
  matcher is the character before the position, the rest of the input and the captures.
\<close>

definition is_line_terminator :: "jschar \<Rightarrow> bool" where
  "is_line_terminator c \<longleftrightarrow> c = 0x0A \<or> c = 0x0D \<or> c = 0x2028 \<or> c = 0x2029"

text \<open>White space and line terminators: what \<open>\s\<close> matches and \<open>trim\<close> removes.\<close>

definition is_space :: "jschar \<Rightarrow> bool" where
  "is_space c \<longleftrightarrow>
     (0x09 \<le> c \<and> c \<le> 0x0D) \<or> c = 0x20 \<or> c = 0xA0 \<or> c = 0x1680 \<or>
     (0x2000 \<le> c \<and> c \<le> 0x200A) \<or> c = 0x2028 \<or> c = 0x2029 \<or> c = 0x202F \<or>
     c = 0x205F \<or> c = 0x3000 \<or> c = 0xFEFF"

definition is_word :: "jschar \<Rightarrow> bool" where
  "is_word c \<longleftrightarrow>
     (0x61 \<le> c \<and> c \<le> 0x7A) \<or> (0x41 \<le> c \<and> c \<le> 0x5A) \<or>
     (0x30 \<le> c \<and> c \<le> 0x39) \<or> c = 0x5F"

definition trim :: "jsstring \<Rightarrow> jsstring" where
  "trim s = rev (dropWhile is_space (rev (dropWhile is_space s)))"

datatype cclass = CChar jschar | CWord | CSpace | CNotSpace

datatype regex =
    REps
  | RChr jschar
  | RDot
  | RClass bool "cclass list"
  | RBol
  | REol
  | RSeq regex regex
  | RAlt regex regex
  | RStar regex
  | RLazyStar regex
  | RGroup nat regex

record RegExp =
  source :: regex
  ignoreCase :: bool
  multiline :: bool
  global :: bool

type_synonym captures = "nat \<Rightarrow> jsstring option"
type_synonym mstate = "jschar option \<times> jsstring \<times> captures"

text \<open>
  With the \<open>i\<close> flag two characters match when their upper-case forms are equal. The
  patterns of the sources hold ASCII characters only, and a character outside ASCII never
  has the canonical form of an ASCII character.
\<close>

definition canonicalize :: "bool \<Rightarrow> jschar \<Rightarrow> jschar" where
  "canonicalize ic c = (if ic \<and> 0x61 \<le> c \<and> c \<le> 0x7A then c - 0x20 else c)"

fun in_cclass :: "bool \<Rightarrow> jschar \<Rightarrow> cclass \<Rightarrow> bool" where
  "in_cclass ic x (CChar c) = (canonicalize ic x = canonicalize ic c)"
| "in_cclass ic x CWord = is_word x"
| "in_cclass ic x CSpace = is_space x"
| "in_cclass ic x CNotSpace = (\<not> is_space x)"

definition step_char :: "(jschar \<Rightarrow> bool) \<Rightarrow> mstate \<Rightarrow> mstate list" where
  "step_char ok st =
     (case st of (p, r, caps) \<Rightarrow>
        (case r of [] \<Rightarrow> [] | x # xs \<Rightarrow> if ok x then [(Some x, xs, caps)] else []))"

definition progress :: "mstate \<Rightarrow> mstate \<Rightarrow> bool" where
  "progress st st' \<longleftrightarrow> length (fst (snd st')) < length (fst (snd st))"

text \<open>
  \<open>r*\<close> and \<open>r*?\<close>: an iteration that consumes nothing is not taken, so the number of
  iterations is at most the length of the rest of the input, which is the first argument.
\<close>

primrec iter_greedy :: "nat \<Rightarrow> (mstate \<Rightarrow> mstate list) \<Rightarrow> mstate \<Rightarrow> mstate list" where
  "iter_greedy 0 m st = [st]"
| "iter_greedy (Suc n) m st =
     concat (map (iter_greedy n m) (filter (progress st) (m st))) @ [st]"

primrec iter_lazy :: "nat \<Rightarrow> (mstate \<Rightarrow> mstate list) \<Rightarrow> mstate \<Rightarrow> mstate list" where
  "iter_lazy 0 m st = [st]"
| "iter_lazy (Suc n) m st =
     st # concat (map (iter_lazy n m) (filter (progress st) (m st)))"

definition capture :: "nat \<Rightarrow> mstate \<Rightarrow> mstate \<Rightarrow> mstate" where
  "capture n st st' =
     (case st' of (p', r', caps') \<Rightarrow>
        (p', r', caps'(n \<mapsto> take (length (fst (snd st)) - length r') (fst (snd st)))))"

primrec rx_match :: "bool \<Rightarrow> bool \<Rightarrow> regex \<Rightarrow> mstate \<Rightarrow> mstate list" where
  "rx_match ic ml REps = (\<lambda>st. [st])"
| "rx_match ic ml (RChr c) = step_char (\<lambda>x. canonicalize ic x = canonicalize ic c)"
| "rx_match ic ml RDot = step_char (\<lambda>x. \<not> is_line_terminator x)"
| "rx_match ic ml (RClass neg cs) = step_char (\<lambda>x. list_ex (in_cclass ic x) cs \<noteq> neg)"
| "rx_match ic ml RBol =
     (\<lambda>st. case fst st of None \<Rightarrow> [st]
                        | Some c \<Rightarrow> if ml \<and> is_line_terminator c then [st] else [])"
| "rx_match ic ml REol =
     (\<lambda>st. case fst (snd st) of [] \<Rightarrow> [st]
                        | c # cs \<Rightarrow> if ml \<and> is_line_terminator c then [st] else [])"
| "rx_match ic ml (RSeq a b) = (\<lambda>st. concat (map (rx_match ic ml b) (rx_match ic ml a st)))"
| "rx_match ic ml (RAlt a b) = (\<lambda>st. rx_match ic ml a st @ rx_match ic ml b st)"
| "rx_match ic ml (RStar a) =
     (\<lambda>st. iter_greedy (length (fst (snd st))) (rx_match ic ml a) st)"
| "rx_match ic ml (RLazyStar a) =
     (\<lambda>st. iter_lazy (length (fst (snd st))) (rx_match ic ml a) st)"
| "rx_match ic ml (RGroup n a) = (\<lambda>st. map (capture n st) (rx_match ic ml a st))"

text \<open>The number of capturing groups of a pattern.\<close>

primrec ngroups :: "regex \<Rightarrow> nat" where
  "ngroups REps = 0"
| "ngroups (RChr c) = 0"
| "ngroups RDot = 0"
| "ngroups (RClass neg cs) = 0"
| "ngroups RBol = 0"
| "ngroups REol = 0"
| "ngroups (RSeq a b) = ngroups a + ngroups b"
| "ngroups (RAlt a b) = ngroups a + ngroups b"
| "ngroups (RStar a) = ngroups a"
| "ngroups (RLazyStar a) = ngroups a"
| "ngroups (RGroup n a) = Suc (ngroups a)"

text \<open>One attempt at a position: the first way to match, if there is one.\<close>

definition match_here :: "RegExp \<Rightarrow> jschar option \<Rightarrow> jsstring \<Rightarrow> mstate option" where
  "match_here re prev s =
     (case rx_match (ignoreCase re) (multiline re) (source re) (prev, s, Map.empty) of
        [] \<Rightarrow> None | st # _ \<Rightarrow> Some st)"

text \<open>
  The array of a match: the matched text, then one entry for each capturing group of the
  pattern, \<open>None\<close> (\<open>undefined\<close>) for a group that took no part.
\<close>

definition match_array :: "RegExp \<Rightarrow> jsstring \<Rightarrow> mstate \<Rightarrow> jsstring option list" where
  "match_array re s st =
     Some (take (length s - length (fst (snd st))) s)
       # map (snd (snd st)) [1 ..< Suc (ngroups (source re))]"

text \<open>The first match at or after the current position.\<close>

fun search :: "RegExp \<Rightarrow> jschar option \<Rightarrow> jsstring \<Rightarrow> jsstring option list option" where
  "search re prev [] = map_option (match_array re []) (match_here re prev [])"
| "search re prev (x # xs) =
     (case match_here re prev (x # xs) of
        Some st \<Rightarrow> Some (match_array re (x # xs) st)
      | None \<Rightarrow> search re (Some x) xs)"

text \<open>
  All matches from left to right, as \<open>replace\<close> and \<open>match\<close> find them with the \<open>g\<close>
  flag: after a match the search goes on where the match ended, and one character
  further after an empty match. The characters between the matches are copied.
\<close>

datatype token = Copy jschar | Match "jsstring option list"

function scan :: "RegExp \<Rightarrow> jschar option \<Rightarrow> jsstring \<Rightarrow> token list" where
  "scan re prev s =
     (case match_here re prev s of
        None \<Rightarrow> (case s of [] \<Rightarrow> [] | x # xs \<Rightarrow> Copy x # scan re (Some x) xs)
      | Some st \<Rightarrow>
          Match (match_array re s st) #
            (if length (fst (snd st)) < length s then scan re (fst st) (fst (snd st))
             else (case s of [] \<Rightarrow> [] | x # xs \<Rightarrow> Copy x # scan re (Some x) xs)))"
  by pat_completeness auto
termination
  by (relation "measure (\<lambda>(re, prev, s). length s)") auto

declare scan.simps [simp del]

text \<open>
  \<open>RegExp.prototype.test\<close> of a pattern without the \<open>g\<close> flag, and
  \<open>String.prototype.match\<close>: without \<open>g\<close> the array of the first match, with \<open>g\<close> the
  texts of all matches; \<open>None\<close> is \<open>null\<close>.
\<close>

definition js_test :: "RegExp \<Rightarrow> jsstring \<Rightarrow> bool" where
  "js_test re s \<longleftrightarrow> search re None s \<noteq> None"

definition matches_of :: "token list \<Rightarrow> jsstring option list" where
  "matches_of ts = concat (map (\<lambda>t. case t of Copy c \<Rightarrow> [] | Match a \<Rightarrow> take 1 a) ts)"

definition js_match :: "RegExp \<Rightarrow> jsstring \<Rightarrow> jsstring option list option" where
  "js_match re s =
     (if global re then
        (case matches_of (scan re None s) of [] \<Rightarrow> None | m # ms \<Rightarrow> Some (m # ms))
      else search re None s)"

text \<open>An element of an array; \<open>None\<close> is \<open>undefined\<close>, also beyond the end.\<close>

definition arg :: "jsstring option list \<Rightarrow> nat \<Rightarrow> jsstring option" where
  "arg a i = (if i < length a then a ! i else None)"

subsection \<open>The patterns\<close>

definition lit :: "string \<Rightarrow> regex" where
  "lit s = foldr (\<lambda>c r. RSeq (RChr (cu c)) r) s REps"

definition plus :: "regex \<Rightarrow> regex" where
  "plus r = RSeq r (RStar r)"

definition opt :: "regex \<Rightarrow> regex" where
  "opt r = RAlt r REps"

primrec at_most :: "nat \<Rightarrow> regex \<Rightarrow> regex" where
  "at_most 0 r = REps"
| "at_most (Suc n) r = opt (RSeq r (at_most n r))"

fun alts :: "regex list \<Rightarrow> regex" where
  "alts [] = RClass False []"
| "alts [r] = r"
| "alts (r # rs) = RAlt r (alts rs)"

primrec seqs :: "regex list \<Rightarrow> regex" where
  "seqs [] = REps"
| "seqs (r # rs) = RSeq r (seqs rs)"

definition sp :: regex where
  "sp = RClass False [CSpace]"

definition wd :: regex where
  "wd = RClass False [CWord]"

definition anychar :: regex where
  "anychar = RClass False [CSpace, CNotSpace]"

definition rx :: "regex \<Rightarrow> RegExp" where
  "rx r = \<lparr>source = r, ignoreCase = False, multiline = False, global = False\<rparr>"

text \<open>\<open>LANGUAGE_PATTERNS\<close> of src/constants/index.ts, in the order of the declaration.\<close>

definition javascript_rx :: RegExp where
  "javascript_rx = rx (alts [lit ''function'', lit ''const'', lit ''let'', lit ''var'',
     lit ''=>'', seqs [lit ''import'', RStar RDot, lit ''from'']])"

definition typescript_rx :: RegExp where
  "typescript_rx = rx (alts [lit ''interface'', lit ''type'', lit ''enum'', lit ''namespace'',
     seqs [lit ''import'', RStar RDot, lit ''from'', RStar RDot,
           RClass False [CChar squote, CChar dquote], RStar RDot, lit ''.ts'']])"

definition python_rx :: RegExp where
  "python_rx = rx (alts [seqs [lit ''def'', plus sp, plus wd, RStar sp, lit ''(''],
     seqs [lit ''import'', plus sp, plus wd],
     seqs [lit ''from'', plus sp, plus wd, plus sp, lit ''import''],
     seqs [lit ''class'', plus sp, plus wd, lit '':'']])"

definition java_rx :: RegExp where
  "java_rx = rx (alts [seqs [lit ''public'', plus sp, lit ''class''],
     seqs [lit ''private'', plus sp, lit ''void''],
     seqs [lit ''import'', plus sp, lit ''java.'']])"

definition csharp_rx :: RegExp where
  "csharp_rx = rx (alts [seqs [lit ''using'', plus sp, lit ''System''],
     seqs [lit ''namespace'', plus sp, plus wd],
     seqs [lit ''public'', plus sp, lit ''class'']])"

definition go_rx :: RegExp where
  "go_rx = rx (alts [seqs [lit ''package'', plus sp, plus wd],
     seqs [lit ''func'', plus sp, plus wd],
     seqs [lit ''import'', plus sp, lit ''('']])"

definition rust_rx :: RegExp where
  "rust_rx = rx (alts [seqs [lit ''fn'', plus sp, plus wd],
     seqs [lit ''let'', plus sp, lit ''mut''],
     seqs [lit ''use'', plus sp, lit ''std::'']])"

definition cpp_rx :: RegExp where
  "cpp_rx = rx (alts [seqs [lit ''#include'', RStar sp, lit ''<''], lit ''std::'',
     lit ''cout'', lit ''cin''])"

definition c_rx :: RegExp where
  "c_rx = rx (alts [seqs [lit ''#include'', RStar sp, lit ''<stdio.h>''], lit ''printf'',
     lit ''scanf''])"

definition html_rx :: RegExp where
  "html_rx = rx (alts [lit ''<html'', lit ''<!DOCTYPE'', lit ''<div'', lit ''<span''])"

definition css_rx :: RegExp where
  "css_rx = rx (alts [seqs [lit ''{'', RStar (RClass True [CChar (cu CHR ''}'')]), lit '':'',
                           RStar (RClass True [CChar (cu CHR ''}'')]), lit ''}''],
     lit ''@media'', lit ''@import''])"

definition json_rx :: RegExp where
  "json_rx = rx (seqs [RBol, RStar sp, lit ''{'', RStar anychar, lit ''}'', RStar sp, REol])"

definition yaml_rx :: RegExp where
  "yaml_rx = (rx (seqs [RBol, plus (RClass False [CWord, CChar (cu CHR ''-'')]), lit '':'',
     RStar sp, RClass False [CWord, CChar (cu CHR ''-'')]]))\<lparr>multiline := True\<rparr>"

definition markdown_rx :: RegExp where
  "markdown_rx = (rx (alts [seqs [RBol, lit ''#'', at_most 5 (lit ''#''), plus sp],
     seqs [lit ''['', RStar RDot, lit '']('', RStar RDot, lit '')''],
     lit ''```'']))\<lparr>multiline := True\<rparr>"

definition sql_rx :: RegExp where
  "sql_rx = (rx (alts [seqs [lit ''SELECT'', plus sp, RStar RDot, plus sp, lit ''FROM''],
     seqs [lit ''INSERT'', plus sp, lit ''INTO''],
     seqs [lit ''UPDATE'', plus sp, RStar RDot, plus sp, lit ''SET'']]))
     \<lparr>ignoreCase := True\<rparr>"

definition shell_rx :: RegExp where
  "shell_rx = rx (alts [seqs [RBol, lit ''#!/bin/'', RGroup 1 (alts [lit ''bash'', lit ''sh''])],
     seqs [lit ''echo'', plus sp], seqs [lit ''export'', plus sp]])"

definition LANGUAGE_PATTERNS :: "(jsstring \<times> RegExp) list" where
  "LANGUAGE_PATTERNS =
     [(js ''javascript'', javascript_rx), (js ''typescript'', typescript_rx),
      (js ''python'', python_rx), (js ''java'', java_rx), (js ''csharp'', csharp_rx),
      (js ''go'', go_rx), (js ''rust'', rust_rx), (js ''cpp'', cpp_rx), (js ''c'', c_rx),
      (js ''html'', html_rx), (js ''css'', css_rx), (js ''json'', json_rx),
      (js ''yaml'', yaml_rx), (js ''markdown'', markdown_rx), (js ''sql'', sql_rx),
      (js ''shell'', shell_rx)]"

section \<open>FormattingService (src/services/FormattingService.ts)\<close>

record ILanguageDetection =
  language :: "jsstring option"
  confidence :: real

definition no_detection :: ILanguageDetection where
  "no_detection = \<lparr>language = None, confidence = 0\<rparr>"

text \<open>
  The loop over \<open>Object.entries(LANGUAGE_PATTERNS)\<close>, which visits the patterns in the
  order of their declaration. The confidences are the doubles \<open>0.2 * n\<close>; as real numbers
  they compare with each other and with \<open>0.3\<close> as the doubles do.
\<close>

definition detections :: "jsstring \<Rightarrow> ILanguageDetection list" where
  "detections code =
     concat (map (\<lambda>(lang, pattern).
        if js_test pattern code then
          [\<lparr>language = Some lang,
            confidence = (case js_match pattern code of
                            Some matches \<Rightarrow> min (real (length matches) * 0.2) 1.0
                          | None \<Rightarrow> 0)\<rparr>]
        else []) LANGUAGE_PATTERNS)"

text \<open>
  \<open>detections.sort((a, b) => b.confidence - a.confidence)\<close>: the sort of an array is
  stable, and so is \<open>sort_key\<close>.
\<close>

definition detectLanguage :: "jsstring \<Rightarrow> ILanguageDetection" where
  "detectLanguage code =
     (if code = [] \<or> length (trim code) = 0 then no_detection
      else
        (case sort_key (\<lambda>d. - confidence d) (detections code) of
           d # ds \<Rightarrow> if 0.3 < confidence d then d else no_detection
         | [] \<Rightarrow> no_detection))"

text \<open>
  The detector as the specification words it: the confidence of a language is the number
  of matches of its pattern in the code, times 0.2, at most 1. The number of matches is
  the length of the array that \<open>match\<close> returns for the pattern with the \<open>g\<close> flag.
\<close>

definition count_matches :: "RegExp \<Rightarrow> jsstring \<Rightarrow> nat" where
  "count_matches re s = length (matches_of (scan (re\<lparr>global := True\<rparr>) None s))"

definition spec_detections :: "jsstring \<Rightarrow> ILanguageDetection list" where
  "spec_detections code =
     concat (map (\<lambda>(lang, pattern).
        if js_test pattern code then
          [\<lparr>language = Some lang,
            confidence = min (real (count_matches pattern code) * 0.2) 1.0\<rparr>]
        else []) LANGUAGE_PATTERNS)"

definition spec_detectLanguage :: "jsstring \<Rightarrow> ILanguageDetection" where
  "spec_detectLanguage code =
     (if code = [] \<or> length (trim code) = 0 then no_detection
      else
        (case sort_key (\<lambda>d. - confidence d) (spec_detections code) of
           d # ds \<Rightarrow> if 0.3 < confidence d then d else no_detection
         | [] \<Rightarrow> no_detection))"

definition escapeHtml :: "jsstring \<Rightarrow> jsstring" where
  "escapeHtml text =
     replaceAll_char squote (js ''&#039;'')
       (replaceAll_char dquote (js ''&quot;'')
         (replaceAll_char (cu CHR ''>'') (js ''&gt;'')
           (replaceAll_char (cu CHR ''<'') (js ''&lt;'')
             (replaceAll_char (cu CHR ''&'') (js ''&amp;'') text))))"

text \<open>What \<open>escapeHtml\<close> writes for one character of its input.\<close>

definition escape_char :: "jschar \<Rightarrow> jsstring" where
  "escape_char c =
     (if c = cu CHR ''&'' then js ''&amp;''
      else if c = cu CHR ''<'' then js ''&lt;''
      else if c = cu CHR ''>'' then js ''&gt;''
      else if c = dquote then js ''&quot;''
      else if c = squote then js ''&#039;''
      else [c])"

subsection \<open>Formatting of output\<close>

text \<open>
  A failure is a value: \<open>TypeError\<close> is what a method call on \<open>undefined\<close> throws,
  \<open>Thrown\<close> what a library throws, \<open>ExtensionError\<close> the error class of
  src/errors (its time stamp is left out); \<open>ProcessingError\<close> is its subclass.
\<close>

datatype OutputFormat = fmt_default | fmt_enhanced | fmt_markdown | fmt_html

datatype ErrorType =
  VALIDATION_ERROR | PROCESSING_ERROR | UI_ERROR | CONFIGURATION_ERROR | AUGMENT_API_ERROR

datatype error =
    TypeError
  | Thrown jsstring
  | ExtensionError ErrorType jsstring "jsstring option" "OutputFormat option"

definition ProcessingError :: "jsstring \<Rightarrow> jsstring option \<Rightarrow> OutputFormat option \<Rightarrow> error" where
  "ProcessingError msg code details = ExtensionError PROCESSING_ERROR msg code details"

text \<open>Sequencing of steps that may fail: the first failure is the result.\<close>

definition bind :: "error + 'a \<Rightarrow> ('a \<Rightarrow> error + 'b) \<Rightarrow> error + 'b" where
  "bind r f = (case r of Inl e \<Rightarrow> Inl e | Inr v \<Rightarrow> f v)"

text \<open>
  \<open>s.replace(re, f)\<close> for a pattern with the \<open>g\<close> flag and a function \<open>f\<close>, which is
  called with the array of each match, from left to right; a failure of \<open>f\<close> ends the
  replacement.
\<close>

fun collect :: "(error + jsstring) list \<Rightarrow> error + jsstring" where
  "collect [] = Inr []"
| "collect (Inl e # rs) = Inl e"
| "collect (Inr x # rs) = (case collect rs of Inl e \<Rightarrow> Inl e | Inr y \<Rightarrow> Inr (x @ y))"

definition js_replace ::
  "RegExp \<Rightarrow> (jsstring option list \<Rightarrow> error + jsstring) \<Rightarrow> jsstring \<Rightarrow> error + jsstring" where
  "js_replace re f s =
     collect (map (\<lambda>t. case t of Copy c \<Rightarrow> Inr [c] | Match a \<Rightarrow> f a) (scan re None s))"

text \<open>A value in a template literal: \<open>undefined\<close> is written as the word.\<close>

definition interp :: "jsstring option \<Rightarrow> jsstring" where
  "interp v = (case v of None \<Rightarrow> js ''undefined'' | Some s \<Rightarrow> s)"

definition nl :: jschar where
  "nl = 0x0A"

text \<open>The patterns of \<open>enhanceOutput\<close> and \<open>formatHTML\<close>.\<close>

definition fence_rx :: RegExp where
  "fence_rx = (rx (seqs [lit ''```'', opt (RGroup 1 (plus wd)), RStar sp,
                        RGroup 2 (RLazyStar anychar), lit ''```'']))\<lparr>global := True\<rparr>"

definition function_results_rx :: RegExp where
  "function_results_rx = (rx (seqs [lit ''<function_results>'', RGroup 1 (RLazyStar anychar),
                        lit ''</function_results>'']))\<lparr>global := True\<rparr>"

definition snippet_rx :: RegExp where
  "snippet_rx = (rx (seqs [lit ''<augment_code_snippet'',
                          RGroup 1 (RStar (RClass True [CChar (cu CHR ''>'')])), lit ''>'',
                          RGroup 2 (RLazyStar anychar),
                          lit ''</augment_code_snippet>'']))\<lparr>global := True\<rparr>"

definition path_rx :: RegExp where
  "path_rx = (rx (seqs [lit ''path='', RChr dquote,
                       RGroup 1 (RStar (RClass True [CChar dquote])), RChr dquote]))
             \<lparr>ignoreCase := True\<rparr>"

definition mode_rx :: RegExp where
  "mode_rx = (rx (seqs [lit ''mode='', RChr dquote,
                       RGroup 1 (RStar (RClass True [CChar dquote])), RChr dquote]))
             \<lparr>ignoreCase := True\<rparr>"

definition pre_code_rx :: RegExp where
  "pre_code_rx = (rx (seqs [lit ''<pre><code class='', RChr dquote, lit ''language-'',
                           RGroup 1 (plus wd), RChr dquote, lit ''>'',
                           RGroup 2 (RLazyStar anychar), lit ''</code></pre>'']))
                 \<lparr>global := True\<rparr>"

text \<open>
  The functions that \<open>enhanceOutput\<close> passes to \<open>replace\<close>. \<open>code.trim()\<close>,
  \<open>content.trim()\<close> and \<open>attrs.match\<close> throw a TypeError when the group is
  \<open>undefined\<close>.
\<close>

definition fence_cb :: "jsstring option list \<Rightarrow> error + jsstring" where
  "fence_cb a =
     (case arg a 2 of
        None \<Rightarrow> Inl TypeError
      | Some code \<Rightarrow>
          (let lang = arg a 1;
               detectedLang =
                 (if lang \<noteq> None \<and> lang \<noteq> Some [] then interp lang
                  else case language (detectLanguage code) of
                         Some l \<Rightarrow> l | None \<Rightarrow> [])
           in Inr (js ''```'' @ detectedLang @ [nl] @ trim code @ [nl] @ js ''```'')))"

definition function_results_cb :: "jsstring option list \<Rightarrow> error + jsstring" where
  "function_results_cb a =
     (case arg a 1 of
        None \<Rightarrow> Inl TypeError
      | Some content \<Rightarrow>
          Inr (js ''<details>'' @ [nl] @ js ''<summary>Function Results</summary>'' @ [nl, nl]
               @ js ''```'' @ [nl] @ trim content @ [nl] @ js ''```'' @ [nl]
               @ js ''</details>'' @ [nl]))"

definition snippet_cb :: "jsstring option list \<Rightarrow> error + jsstring" where
  "snippet_cb a =
     (case arg a 1 of
        None \<Rightarrow> Inl TypeError
      | Some attrs \<Rightarrow>
          (let pathMatch = js_match path_rx attrs;
               modeMatch = js_match mode_rx attrs;
               path = (case pathMatch of Some m \<Rightarrow> interp (arg m 1) | None \<Rightarrow> js ''unknown'');
               mode = (case modeMatch of Some m \<Rightarrow> interp (arg m 1) | None \<Rightarrow> js ''EXCERPT'')
           in case arg a 2 of
                None \<Rightarrow> Inl TypeError
              | Some content \<Rightarrow>
                  Inr (js ''<augment_code_snippet path='' @ [dquote] @ path @ [dquote]
                       @ js '' mode='' @ [dquote] @ mode @ [dquote] @ js ''>'' @ [nl]
                       @ trim content @ [nl] @ js ''</augment_code_snippet>'')))"

definition enhanceOutput :: "jsstring \<Rightarrow> error + jsstring" where
  "enhanceOutput text =
     bind (js_replace fence_rx fence_cb text) (\<lambda>enhanced.
     bind (js_replace function_results_rx function_results_cb enhanced) (\<lambda>enhanced.
       js_replace snippet_rx snippet_cb enhanced))"

definition formatMarkdown :: "jsstring \<Rightarrow> error + jsstring" where
  "formatMarkdown text = enhanceOutput text"

text \<open>
  The libraries: \<open>marked.parse\<close>, \<open>hljs.getLanguage\<close> (whether the language is known),
  \<open>hljs.highlight\<close> and \<open>hljs.highlightAuto\<close> (the \<open>value\<close> of their result). Each may
  throw.
\<close>

record Externals =
  marked_parse :: "jsstring \<Rightarrow> error + jsstring"
  hljs_getLanguage :: "jsstring \<Rightarrow> error + bool"
  hljs_highlight :: "jsstring \<Rightarrow> jsstring \<Rightarrow> error + jsstring"
  hljs_highlightAuto :: "jsstring \<Rightarrow> error + jsstring"

definition highlightCode :: "Externals \<Rightarrow> jsstring \<Rightarrow> jsstring \<Rightarrow> jsstring" where
  "highlightCode ext code lang =
     (case (if lang \<noteq> [] then
              bind (hljs_getLanguage ext lang) (\<lambda>known.
                if known then hljs_highlight ext code lang else hljs_highlightAuto ext code)
            else hljs_highlightAuto ext code) of
        Inr v \<Rightarrow> v
      | Inl e \<Rightarrow> escapeHtml code)"

text \<open>
  The function that \<open>formatHTML\<close> passes to \<open>replace\<close>. \<open>highlightCode\<close> catches what
  the highlighter throws, so the \<open>catch\<close> of the function, which returns the match, is
  reached only for a match without its second group.
\<close>

definition pre_code_cb :: "Externals \<Rightarrow> jsstring option list \<Rightarrow> error + jsstring" where
  "pre_code_cb ext a =
     (case arg a 2 of
        None \<Rightarrow> Inr (interp (arg a 0))
      | Some code \<Rightarrow>
          Inr (js ''<pre><code class='' @ [dquote] @ js ''language-'' @ interp (arg a 1)
               @ js '' hljs'' @ [dquote] @ js ''>''
               @ highlightCode ext code (case arg a 1 of Some l \<Rightarrow> l | None \<Rightarrow> [])
               @ js ''</code></pre>''))"

definition formatHTML :: "Externals \<Rightarrow> jsstring \<Rightarrow> jsstring" where
  "formatHTML ext text =
     (case bind (marked_parse ext text) (js_replace pre_code_rx (pre_code_cb ext)) of
        Inr html \<Rightarrow> html
      | Inl e \<Rightarrow> text)"

text \<open>
  The \<open>try\<close> and \<open>catch\<close> of \<open>formatOutput\<close>: a failure of the body becomes a
  \<open>ProcessingError\<close> with the code \<open>FORMAT_ERROR\<close> and the format as details.
\<close>

definition wrap_failure :: "OutputFormat \<Rightarrow> error + jsstring \<Rightarrow> error + jsstring" where
  "wrap_failure format r =
     (case r of
        Inl e \<Rightarrow> Inl (ProcessingError (js ''Failed to format output'')
                        (Some (js ''FORMAT_ERROR'')) (Some format))
      | Inr v \<Rightarrow> Inr v)"

definition formatOutput :: "Externals \<Rightarrow> jsstring \<Rightarrow> OutputFormat \<Rightarrow> error + jsstring" where
  "formatOutput ext text format =
     wrap_failure format
       (if text = [] then Inr text
        else case format of
               fmt_default \<Rightarrow> Inr text
             | fmt_enhanced \<Rightarrow> enhanceOutput text
             | fmt_markdown \<Rightarrow> formatMarkdown text
             | fmt_html \<Rightarrow> Inr (formatHTML ext text))"

section \<open>Chunking\<close>

text \<open>
  \<open>ITextChunk\<close> and \<open>IChunkingService\<close> are declared in src/types; no class of the
  sources implements the service. The naive mode is modelled from sections 3, 4.4 and 6
  of the specification.
\<close>

record ITextChunk =
  content :: jsstring
  index :: nat
  hasContext :: bool
  contextPrefix :: "jsstring option"

text \<open>
  Modelled from the spec: the fixed-size split of \<open>chunkText\<close>, which the sources do not
  implement. The text is cut into consecutive pieces of \<open>maxSize\<close> characters, the last
  one shorter when the length is not a multiple.
\<close>

function pieces :: "nat \<Rightarrow> jsstring \<Rightarrow> jsstring list" where
  "pieces n s = (if n = 0 \<or> s = [] then [] else take n s # pieces n (drop n s))"
  by pat_completeness auto
termination
  by (relation "measure (\<lambda>(n, s). length s)") auto

declare pieces.simps [simp del]

text \<open>
  Modelled from the spec: the context overlap of \<open>chunkText\<close>, which the sources do not
  implement. Every chunk after the first starts with the trailing \<open>CONTEXT_OVERLAP_SIZE\<close>
  characters of the content of the chunk before it, recorded as its \<open>contextPrefix\<close>;
  the indices count from 0.
\<close>

fun with_overlap :: "nat \<Rightarrow> jsstring option \<Rightarrow> jsstring list \<Rightarrow> ITextChunk list" where
  "with_overlap i prev [] = []"
| "with_overlap i prev (p # ps) =
     (let pre = map_option (\<lambda>c. drop (length c - CONTEXT_OVERLAP_SIZE) c) prev;
          c = (case pre of None \<Rightarrow> p | Some x \<Rightarrow> x @ p)
      in \<lparr>content = c, index = i, hasContext = (pre \<noteq> None), contextPrefix = pre\<rparr>
           # with_overlap (Suc i) (Some c) ps)"

text \<open>
  Modelled from the spec: \<open>chunkText\<close>, that is \<open>chunk\<close> in the naive mode, which the
  sources do not implement. A \<open>maxSize\<close> that is zero or negative is a
  \<open>ConfigurationError\<close>.
\<close>

definition chunkText :: "jsstring \<Rightarrow> int \<Rightarrow> ErrorType + ITextChunk list" where
  "chunkText text maxSize =
     (if maxSize \<le> 0 then Inl CONFIGURATION_ERROR
      else Inr (with_overlap 0 None (pieces (nat maxSize) text)))"

text \<open>
  Modelled from the spec: the content of a chunk with its \<open>contextPrefix\<close> stripped, the
  operation of the round trip, which the sources do not implement.
\<close>

definition strip_prefix :: "ITextChunk \<Rightarrow> jsstring" where
  "strip_prefix ch =
     (case contextPrefix ch of None \<Rightarrow> content ch | Some p \<Rightarrow> drop (length p) (content ch))"

section \<open>Auxiliary definitions of the proofs\<close>

text \<open>
  The confidence that \<open>detectLanguage\<close> gives to a pattern without the \<open>g\<close> flag: the
  array of \<open>match\<close> has one entry for the match and one for each group.
\<close>

definition conf_of :: "RegExp \<Rightarrow> real" where
  "conf_of re = min (real (Suc (ngroups (source re))) * 0.2) 1.0"

definition shell_detection :: ILanguageDetection where
  "shell_detection = \<lparr>language = Some (js ''shell''), confidence = 0.4\<rparr>"

text \<open>A code with two matches of the JavaScript pattern and none of any other pattern.\<close>

definition two_declarations :: jsstring where
  "two_declarations = js ''var a; var b;''"

text \<open>The groups that take part in every match of a pattern.\<close>

primrec must_groups :: "regex \<Rightarrow> nat set" where
  "must_groups REps = {}"
| "must_groups (RChr c) = {}"
| "must_groups RDot = {}"
| "must_groups (RClass neg cs) = {}"
| "must_groups RBol = {}"
| "must_groups REol = {}"
| "must_groups (RSeq a b) = must_groups a \<union> must_groups b"
| "must_groups (RAlt a b) = must_groups a \<inter> must_groups b"
| "must_groups (RStar a) = {}"
| "must_groups (RLazyStar a) = {}"
| "must_groups (RGroup n a) = insert n (must_groups a)"

definition grows_with :: "nat set \<Rightarrow> (mstate \<Rightarrow> mstate list) \<Rightarrow> bool" where
  "grows_with G m \<longleftrightarrow>
     (\<forall>st st'. st' \<in> set (m st) \<longrightarrow> dom (snd (snd st)) \<union> G \<subseteq> dom (snd (snd st')))"

text \<open>The number that a text of decimal digits writes.\<close>

definition read_decimal :: "jsstring \<Rightarrow> nat" where
  "read_decimal s = foldl (\<lambda>a c. 10 * a + (unat c - 48)) 0 s"


definition sixty_two :: ContextService where
  "sixty_two = \<lparr>contextExchangeCount = 62, sessionStartTime = 0,
                 lastContextRefresh = 0, filesProcessed = 3\<rparr>"

definition saturated :: ContextService where
  "saturated = \<lparr>contextExchangeCount = 9007199254740992, sessionStartTime = 0,
                 lastContextRefresh = 0, filesProcessed = 9007199254740992\<rparr>"

text \<open>Libraries whose calls return the same results for every argument.\<close>

definition externals_with ::
  "error + jsstring \<Rightarrow> error + bool \<Rightarrow> error + jsstring \<Rightarrow> error + jsstring \<Rightarrow> Externals" where
  "externals_with parsed known highlighted auto =
     \<lparr>marked_parse = (\<lambda>s. parsed), hljs_getLanguage = (\<lambda>l. known),
      hljs_highlight = (\<lambda>c l. highlighted), hljs_highlightAuto = (\<lambda>c. auto)\<rparr>"

text \<open>Libraries whose every call throws.\<close>

definition failing_externals :: Externals where
  "failing_externals =
     \<lparr>marked_parse = (\<lambda>s. Inl (Thrown (js ''failed''))),
      hljs_getLanguage = (\<lambda>l. Inl (Thrown (js ''failed''))),
      hljs_highlight = (\<lambda>c l. Inl (Thrown (js ''failed''))),
      hljs_highlightAuto = (\<lambda>c. Inl (Thrown (js ''failed'')))\<rparr>"

section \<open>Properties of the numbers\<close>

lemma bitlen_nat_bounds: "0 < n \<Longrightarrow> 2 ^ (bitlen_nat n - 1) \<le> n \<and> n < 2 ^ bitlen_nat n"
proof (induction n rule: bitlen_nat.induct)
  case (1 n)
  show ?case
  proof (cases "n div 2 = 0")
    case True
    with "1.prems" have "n = 1" by (simp add: div_eq_0_iff) 
    then show ?thesis by (simp add: bitlen_nat.simps)
  next
    case False
    then have pos: "0 < n div 2" by simp
    from "1.IH" [OF _ pos] "1.prems"
    have ih: "2 ^ (bitlen_nat (n div 2) - 1) \<le> n div 2" "n div 2 < 2 ^ bitlen_nat (n div 2)" by simp_all
    have b: "bitlen_nat n = Suc (bitlen_nat (n div 2))" using "1.prems" by (subst bitlen_nat.simps) simp
    have bpos: "0 < bitlen_nat (n div 2)" using pos by (subst bitlen_nat.simps) simp
    then obtain k where k: "bitlen_nat (n div 2) = Suc k" by (cases "bitlen_nat (n div 2)") simp_all
    from ih k have "2 ^ k \<le> n div 2" "n div 2 < 2 * 2 ^ k" by simp_all
    then have "2 * 2 ^ k \<le> n" "n < 2 * (2 * 2 ^ k)" by linarith+
    with b k show ?thesis by simp
  qed
qed

lemma bitlen_nat_le: "bitlen_nat n \<le> k \<longleftrightarrow> n < 2 ^ k"
proof (cases "n = 0")
  case True
  then show ?thesis by (simp add: bitlen_nat.simps)
next
  case False
  then have b: "2 ^ (bitlen_nat n - 1) \<le> n" "n < 2 ^ bitlen_nat n" and bp: "0 < bitlen_nat n"
    using bitlen_nat_bounds [of n] by (simp_all add: bitlen_nat.simps [of n])
  show ?thesis
  proof
    assume "bitlen_nat n \<le> k"
    then have "(2::nat) ^ bitlen_nat n \<le> 2 ^ k" by (simp add: power_increasing)
    with b show "n < 2 ^ k" by linarith
  next
    assume "n < 2 ^ k"
    with b have "(2::nat) ^ (bitlen_nat n - 1) < 2 ^ k" by linarith
    then have "bitlen_nat n - 1 < k" by (simp add: power_strict_increasing_iff)
    with bp show "bitlen_nat n \<le> k" by linarith
  qed
qed








lemma round53_small: "n < 2 ^ 53 \<Longrightarrow> round53 n = n"
  by (simp add: round53_def bitlen_nat_le)

lemma bitlen_nat_eq: "2 ^ k \<le> n \<Longrightarrow> n < 2 ^ Suc k \<Longrightarrow> bitlen_nat n = Suc k"
  using bitlen_nat_le [of n k] bitlen_nat_le [of n "Suc k"] by simp

lemma round53_2_53: "round53 9007199254740992 = 9007199254740992"
proof -
  have "bitlen_nat 9007199254740992 = Suc 53" by (rule bitlen_nat_eq) simp_all
  then show ?thesis by (simp add: round53_def Let_def)
qed

lemma round53_2_53_1: "round53 9007199254740993 = 9007199254740992"
proof -
  have "bitlen_nat 9007199254740993 = Suc 53" by (rule bitlen_nat_eq) simp_all
  then show ?thesis by (simp add: round53_def Let_def)
qed

lemma js_plus_one_safe:
  assumes "\<bar>i\<bar> < 2 ^ 53"
  shows "js_plus_one i = i + 1"
proof (cases "0 \<le> i + 1")
  case True
  show ?thesis
  proof (cases "i + 1 = 2 ^ 53")
    case e: True
    then have "nat (i + 1) = 9007199254740992" by simp
    with True e show ?thesis by (simp add: js_plus_one_def round53_int_def round53_2_53)
  next
    case False
    with assms True have "nat (i + 1) < 2 ^ 53" by (simp add: nat_less_iff)
    with True show ?thesis by (simp add: js_plus_one_def round53_int_def round53_small)
  qed
next
  case False
  with assms have "nat (- (i + 1)) < 2 ^ 53" by (simp add: nat_less_iff)
  with False show ?thesis by (simp add: js_plus_one_def round53_int_def round53_small)
qed

section \<open>Properties of ContextService\<close>



text \<open>A threshold that is not an integer: 10.5, whose product with 0.7 is 7.35.\<close>

lemma warning_threshold_ten_and_a_half:
  "value_of \<lparr>significand = 21, exponent = - 1\<rparr> = 10.5 \<and>
   floor_double (times_0_7 \<lparr>significand = 21, exponent = - 1\<rparr>) = 7"
proof -
  have "bitlen_nat 66202914522346287 = Suc 55" by (rule bitlen_nat_eq) simp_all
  then show ?thesis
    by (simp add: value_of_def floor_double_def times_0_7_def round53_def Let_def
        double_0_7_def)
qed






text \<open>
  C9. Importing what \<open>exportSessionData\<close> returned leaves the four fields as they
  were, in every state; and \<open>importSessionData\<close> sets a field to the value its argument
  holds for it and keeps the field when the argument has none.
\<close>

theorem C9_export_import_roundtrip:
  "importSessionData (asImport (exportSessionData s)) s = s \<and>
   contextExchangeCount (importSessionData d s) =
     (case i_contextExchangeCount d of None \<Rightarrow> contextExchangeCount s | Some v \<Rightarrow> v) \<and>
   sessionStartTime (importSessionData d s) =
     (case i_sessionStartTime d of None \<Rightarrow> sessionStartTime s | Some v \<Rightarrow> v) \<and>
   lastContextRefresh (importSessionData d s) =
     (case i_lastContextRefresh d of None \<Rightarrow> lastContextRefresh s | Some v \<Rightarrow> v) \<and>
   filesProcessed (importSessionData d s) =
     (case i_filesProcessed d of None \<Rightarrow> filesProcessed s | Some v \<Rightarrow> v)"
  by (simp add: importSessionData_def asImport_def exportSessionData_def Let_def
      split: option.splits)

text \<open>
  C10, as the claim states it, fails: at \<open>2^53\<close> the sum \<open>2^53 + 1\<close> is not a double and is
  rounded to \<open>2^53\<close>, so the increments leave the counters as they are.
\<close>

theorem C10_increment_counterexample:
  "contextExchangeCount saturated = 9007199254740992 \<and>
   contextExchangeCount (incrementExchangeCount saturated) = 9007199254740992 \<and>
   filesProcessed saturated = 9007199254740992 \<and>
   filesProcessed (incrementFilesProcessed saturated) = 9007199254740992"
  by (simp add: saturated_def incrementExchangeCount_def incrementFilesProcessed_def
      js_plus_one_def round53_int_def round53_2_53_1)

text \<open>
  C10, amended. \<open>incrementExchangeCount\<close> changes no field but \<open>contextExchangeCount\<close>,
  and adds exactly one to it when it holds an integer of magnitude below \<open>2^53\<close>;
  \<open>incrementFilesProcessed\<close> changes no field but \<open>filesProcessed\<close>, and adds exactly one
  to it when it holds an integer of magnitude below \<open>2^53\<close>.
\<close>

theorem C10_increment_frame:
  "(\<bar>contextExchangeCount s\<bar> < 2 ^ 53 \<longrightarrow>
      contextExchangeCount (incrementExchangeCount s) = contextExchangeCount s + 1) \<and>
   sessionStartTime (incrementExchangeCount s) = sessionStartTime s \<and>
   lastContextRefresh (incrementExchangeCount s) = lastContextRefresh s \<and>
   filesProcessed (incrementExchangeCount s) = filesProcessed s \<and>
   (\<bar>filesProcessed s\<bar> < 2 ^ 53 \<longrightarrow>
      filesProcessed (incrementFilesProcessed s) = filesProcessed s + 1) \<and>
   contextExchangeCount (incrementFilesProcessed s) = contextExchangeCount s \<and>
   sessionStartTime (incrementFilesProcessed s) = sessionStartTime s \<and>
   lastContextRefresh (incrementFilesProcessed s) = lastContextRefresh s"
proof (intro conjI impI)
  show "contextExchangeCount (incrementExchangeCount s) = contextExchangeCount s + 1"
    if "\<bar>contextExchangeCount s\<bar> < 2 ^ 53"
    using js_plus_one_safe [OF that] by (simp add: incrementExchangeCount_def)
  show "filesProcessed (incrementFilesProcessed s) = filesProcessed s + 1"
    if "\<bar>filesProcessed s\<bar> < 2 ^ 53"
    using js_plus_one_safe [OF that] by (simp add: incrementFilesProcessed_def)
qed (simp_all add: incrementExchangeCount_def incrementFilesProcessed_def)

text \<open>C10, amended, for 62 exchanges and 3 files.\<close>

theorem C10_increment_frame_witness:
  "\<bar>contextExchangeCount sixty_two\<bar> < 2 ^ 53 \<and>
   contextExchangeCount (incrementExchangeCount sixty_two) = 63 \<and>
   \<bar>filesProcessed sixty_two\<bar> < 2 ^ 53 \<and>
   filesProcessed (incrementFilesProcessed sixty_two) = 4 \<and>
   filesProcessed (incrementExchangeCount sixty_two) = 3 \<and>
   contextExchangeCount (incrementFilesProcessed sixty_two) = 62"
  using C10_increment_frame [of sixty_two] by (simp add: sixty_two_def)

section \<open>Properties of ValidationService\<close>

lemma dquote_neq_backslash: "dquote \<noteq> backslash" "backslash \<noteq> dquote"
  by (simp_all add: dquote_def backslash_def)

text \<open>After the replacement no double quote is left without a backslash before it.\<close>

lemma escape_unescaped_clean: "\<not> test_unescaped prev (escape_unescaped prev s)"
  by (induction s arbitrary: prev) (auto simp: dquote_neq_backslash)

text \<open>A text in which the pattern has no match is returned as it is.\<close>

lemma escape_unescaped_fixed: "\<not> test_unescaped prev s \<Longrightarrow> escape_unescaped prev s = s"
  by (induction s arbitrary: prev) auto

lemma fixDoubleQuotes_scenario_A:
  "fixDoubleQuotes (js ''Hello '' @ [dquote] @ js ''world'' @ [dquote]) =
     js ''Hello '' @ [backslash, dquote] @ js ''world'' @ [backslash, dquote]"
  by (simp add: fixDoubleQuotes_def js_def cu_def dquote_def backslash_def)

text \<open>
  C5. \<open>fixDoubleQuotes\<close> is idempotent, and the empty text is returned empty.
\<close>

theorem C5_fixDoubleQuotes_idempotent:
  "fixDoubleQuotes (fixDoubleQuotes s) = fixDoubleQuotes s \<and> fixDoubleQuotes [] = []"
proof
  show "fixDoubleQuotes (fixDoubleQuotes s) = fixDoubleQuotes s"
  proof (cases "s = []")
    case True
    then show ?thesis by (simp add: fixDoubleQuotes_def)
  next
    case False
    have "escape_unescaped None (escape_unescaped None s) = escape_unescaped None s"
      by (rule escape_unescaped_fixed) (rule escape_unescaped_clean)
    with False show ?thesis by (simp add: fixDoubleQuotes_def)
  qed
  show "fixDoubleQuotes [] = []" by (simp add: fixDoubleQuotes_def)
qed

lemma show_nat_10000: "show_nat 10000 = js ''10000''"
  by (simp add: show_nat.simps js_def cu_def)

lemma show_nat_8000: "show_nat 8000 = js ''8000''"
  by (simp add: show_nat.simps js_def cu_def)

lemma show_nat_2: "show_nat 2 = js ''2''"
  by (simp add: show_nat.simps js_def cu_def)

lemma checkInputSize_scenario_B:
  "checkInputSize (replicate 10000 (cu CHR ''x'')) =
     \<lparr>isLarge = True,
      suggestion = Some (js ''Input is 10000 characters (recommended max: 8000). ''
        @ js ''Consider breaking this into 2 smaller tasks to avoid '' @ [dquote]
        @ js ''too large input'' @ [dquote] @ js '' errors and credit consumption.'')\<rparr>"
  by (simp add: checkInputSize_def Let_def MAX_SAFE_INPUT_SIZE_def
      show_nat_10000 show_nat_8000 show_nat_2 js_def)

lemma digit_unat: "d < 10 \<Longrightarrow> unat (48 + word_of_nat d :: jschar) = 48 + d"
proof -
  assume d: "d < 10"
  have "(48 + word_of_nat d :: jschar) = of_nat (48 + d)" by simp
  then have "unat (48 + word_of_nat d :: jschar) = (48 + d) mod 2 ^ LENGTH(16)"
    by (simp only: unat_of_nat)
  with d show ?thesis by simp
qed

lemma read_decimal_show_nat: "read_decimal (show_nat n) = n"
proof (induction n rule: show_nat.induct)
  case (1 n)
  show ?case
  proof (cases "n < 10")
    case True
    then show ?thesis
      by (subst show_nat.simps) (simp add: read_decimal_def digit_unat)
  next
    case False
    with 1 have ih: "read_decimal (show_nat (n div 10)) = n div 10" by simp
    have "n mod 10 < 10" by simp
    then have d: "unat (48 + word_of_nat (n mod 10) :: jschar) = 48 + n mod 10" by (rule digit_unat)
    have "read_decimal (show_nat n) = 10 * read_decimal (show_nat (n div 10)) + n mod 10"
      using False by (subst show_nat.simps) (simp add: read_decimal_def d)
    with ih show ?thesis by simp
  qed
qed

lemma ceiling_8000: "\<lceil>real n / 8000\<rceil> = int ((n + 7999) div 8000)"
proof (rule ceiling_unique)
  define k where "k = (n + 7999) div 8000"
  have "n + 7999 = 8000 * k + (n + 7999) mod 8000" by (simp add: k_def)
  moreover have "(n + 7999) mod 8000 < 8000" by simp
  ultimately have lo: "8000 * k < n + 8000" and hi: "n \<le> 8000 * k" by linarith+
  from lo have "8000 * real k < real n + 8000" by (metis of_nat_less_iff of_nat_add of_nat_mult of_nat_numeral)
  then show "of_int (int ((n + 7999) div 8000)) - 1 < real n / 8000"
    by (simp add: k_def field_simps)
  from hi have "real n \<le> 8000 * real k" by (metis of_nat_le_iff of_nat_mult of_nat_numeral)
  then show "real n / 8000 \<le> of_int (int ((n + 7999) div 8000))"
    by (simp add: k_def field_simps)
qed

text \<open>
  C6, as the claim states it, fails: \<open>checkInputSize\<close> has no argument for the maximum and
  does not read the setting \<open>fixAugment.maxSafeInputSize\<close>. With a configured maximum of
  100 a text of 101 characters is large for the claim and not large for the code.
\<close>

theorem C6_checkInputSize_counterexample:
  "isLarge (checkInputSize (replicate 101 (cu CHR ''x''))) = False \<and>
   spec_checkSize_isLarge (replicate 101 (cu CHR ''x'')) 100 = True"
  by (simp add: checkInputSize_def Let_def MAX_SAFE_INPUT_SIZE_def spec_checkSize_isLarge_def)

text \<open>
  C6, amended. For every text \<open>checkInputSize\<close> reports a large input exactly when the
  length of the text exceeds 8000, the constant \<open>MAX_SAFE_INPUT_SIZE\<close>, whatever the
  configured maximum: it agrees with the claim for the maximum 8000. The suggestion of a
  large input holds the length in decimal, the number 8000 and, as the number of tasks,
  the ceiling of length / 8000 in decimal; there is no suggestion otherwise.
\<close>

theorem C6_checkInputSize:
  "(isLarge (checkInputSize text) \<longleftrightarrow> 8000 < length text) \<and>
   isLarge (checkInputSize text) = spec_checkSize_isLarge text 8000 \<and>
   suggestion (checkInputSize text) =
     (if 8000 < length text then
        Some (js ''Input is '' @ show_nat (length text)
          @ js '' characters (recommended max: '' @ js ''8000'' @ js ''). ''
          @ js ''Consider breaking this into ''
          @ show_nat ((length text + 7999) div 8000)
          @ js '' smaller tasks to avoid '' @ [dquote] @ js ''too large input''
          @ [dquote] @ js '' errors and credit consumption.'')
      else None) \<and>
   int ((length text + 7999) div 8000) = \<lceil>real (length text) / 8000\<rceil> \<and>
   read_decimal (show_nat (length text)) = length text \<and>
   read_decimal (show_nat ((length text + 7999) div 8000)) = (length text + 7999) div 8000"
proof (intro conjI)
  show large: "isLarge (checkInputSize text) \<longleftrightarrow> 8000 < length text"
    by (simp add: checkInputSize_def Let_def MAX_SAFE_INPUT_SIZE_def)
  then show "isLarge (checkInputSize text) = spec_checkSize_isLarge text 8000"
    by (simp add: spec_checkSize_isLarge_def)
  have "nat \<lceil>real (length text) / 8000\<rceil> = (length text + 7999) div 8000"
    by (simp add: ceiling_8000)
  then show "suggestion (checkInputSize text) =
     (if 8000 < length text then
        Some (js ''Input is '' @ show_nat (length text)
          @ js '' characters (recommended max: '' @ js ''8000'' @ js ''). ''
          @ js ''Consider breaking this into ''
          @ show_nat ((length text + 7999) div 8000)
          @ js '' smaller tasks to avoid '' @ [dquote] @ js ''too large input''
          @ [dquote] @ js '' errors and credit consumption.'')
      else None)"
    by (simp add: checkInputSize_def Let_def MAX_SAFE_INPUT_SIZE_def show_nat_8000)
  show "int ((length text + 7999) div 8000) = \<lceil>real (length text) / 8000\<rceil>"
    by (simp add: ceiling_8000)
qed (rule read_decimal_show_nat)+

subsection \<open>The sanitizers\<close>

lemma replaceAll_char_concat:
  "replaceAll_char c rep (concat (map f s)) =
     concat (map (\<lambda>x. replaceAll_char c rep (f x)) s)"
  by (induction s) (simp_all add: replaceAll_char_def)

lemma sanitize_one:
  "replaceAll_char (cu CHR ''/'') (js ''&#x2F;'')
     (replaceAll_char squote (js ''&#x27;'')
       (replaceAll_char dquote (js ''&quot;'')
         (replaceAll_char (cu CHR ''>'') (js ''&gt;'')
           (if x = cu CHR ''<'' then js ''&lt;'' else [x])))) = sanitize_char x"
  by (simp add: replaceAll_char_def sanitize_char_def js_def cu_def dquote_def squote_def)

lemma escape_one:
  "replaceAll_char squote (js ''&#039;'')
     (replaceAll_char dquote (js ''&quot;'')
       (replaceAll_char (cu CHR ''>'') (js ''&gt;'')
         (replaceAll_char (cu CHR ''<'') (js ''&lt;'')
           (if x = cu CHR ''&'' then js ''&amp;'' else [x])))) = escape_char x"
  by (simp add: replaceAll_char_def escape_char_def js_def cu_def dquote_def squote_def)

lemma sanitizeText_per_character: "sanitizeText text = concat (map sanitize_char text)"
proof -
  have "replaceAll_char (cu CHR ''<'') (js ''&lt;'') text =
          concat (map (\<lambda>x. if x = cu CHR ''<'' then js ''&lt;'' else [x]) text)"
    by (simp add: replaceAll_char_def)
  then have "sanitizeText text =
      (if text = [] then []
       else concat (map (\<lambda>x. replaceAll_char (cu CHR ''/'') (js ''&#x2F;'')
         (replaceAll_char squote (js ''&#x27;'')
           (replaceAll_char dquote (js ''&quot;'')
             (replaceAll_char (cu CHR ''>'') (js ''&gt;'')
               (if x = cu CHR ''<'' then js ''&lt;'' else [x]))))) text))"
    unfolding sanitizeText_def by (simp only: replaceAll_char_concat)
  then show ?thesis by (simp add: sanitize_one)
qed

lemma escapeHtml_per_character: "escapeHtml text = concat (map escape_char text)"
proof -
  have "replaceAll_char (cu CHR ''&'') (js ''&amp;'') text =
          concat (map (\<lambda>x. if x = cu CHR ''&'' then js ''&amp;'' else [x]) text)"
    by (simp add: replaceAll_char_def)
  then have "escapeHtml text =
       concat (map (\<lambda>x. replaceAll_char squote (js ''&#039;'')
         (replaceAll_char dquote (js ''&quot;'')
           (replaceAll_char (cu CHR ''>'') (js ''&gt;'')
             (replaceAll_char (cu CHR ''<'') (js ''&lt;'')
               (if x = cu CHR ''&'' then js ''&amp;'' else [x]))))) text)"
    unfolding escapeHtml_def by (simp only: replaceAll_char_concat)
  then show ?thesis by (simp add: escape_one)
qed

text \<open>
  C3, as the claim states it, fails for \<open>sanitizeText\<close>: an ampersand is not escaped, and
  a slash is.
\<close>

theorem C3_sanitizeText_counterexample:
  "sanitizeText (js ''a&b/c'') = js ''a&b&#x2F;c'' \<and>
   sanitizeText (js ''a&b/c'') \<noteq> js ''a&amp;b/c''"
  by (simp add: sanitizeText_def replaceAll_char_def js_def cu_def dquote_def squote_def)

text \<open>
  C3, amended. \<open>sanitizeText\<close> replaces each of the five characters \<open><\<close>, \<open>>\<close>, double
  quote, single quote and \<open>/\<close> of its input by its entity and copies every other
  character, the ampersand too; no entity is escaped again. The five characters of the
  claim, the ampersand first, are what \<open>escapeHtml\<close> of the formatting service escapes,
  each character of the input once.
\<close>

theorem C3_sanitizers_per_character:
  "sanitizeText text = concat (map sanitize_char text) \<and>
   escapeHtml text = concat (map escape_char text)"
  using sanitizeText_per_character escapeHtml_per_character by (rule conjI)

section \<open>Properties of the language detector\<close>

lemma search_length:
  "search re prev s = Some a \<Longrightarrow> length a = Suc (ngroups (source re))"
  by (induction s arbitrary: prev) (auto simp: match_array_def split: option.splits)

lemma ngroups_lit [simp]: "ngroups (lit s) = 0"
  unfolding lit_def by (induction s) simp_all

lemma ngroups_seqs [simp]: "ngroups (seqs rs) = sum_list (map ngroups rs)"
  by (induction rs) simp_all

lemma ngroups_alts [simp]: "ngroups (alts rs) = sum_list (map ngroups rs)"
  by (induction rs rule: alts.induct) simp_all

lemma ngroups_plus [simp]: "ngroups (plus r) = 2 * ngroups r"
  by (simp add: plus_def)

lemma ngroups_at_most [simp]: "ngroups (at_most n r) = n * ngroups r"
  by (induction n) (simp_all add: opt_def)

lemmas pattern_defs = javascript_rx_def typescript_rx_def python_rx_def java_rx_def
  csharp_rx_def go_rx_def rust_rx_def cpp_rx_def c_rx_def html_rx_def css_rx_def json_rx_def
  yaml_rx_def markdown_rx_def sql_rx_def shell_rx_def

lemma patterns_not_global: "\<forall>(l, re) \<in> set LANGUAGE_PATTERNS. \<not> global re"
  by (simp add: LANGUAGE_PATTERNS_def pattern_defs rx_def)

lemma detection_confidence:
  assumes "\<not> global re" "js_test re code"
  shows "(case js_match re code of Some m \<Rightarrow> min (real (length m) * 0.2) 1.0 | None \<Rightarrow> 0)
           = conf_of re"
proof -
  from assms(2) obtain a where a: "search re None code = Some a"
    by (auto simp: js_test_def)
  then have "length a = Suc (ngroups (source re))" by (rule search_length)
  with a assms(1) show ?thesis by (simp add: js_match_def conf_of_def)
qed

lemma detections_set:
  "d \<in> set (detections code) \<longleftrightarrow>
     (\<exists>(l, re) \<in> set LANGUAGE_PATTERNS. js_test re code \<and>
         d = \<lparr>language = Some l, confidence = conf_of re\<rparr>)"
proof -
  have "\<forall>(l, re) \<in> set ps. \<not> global re \<Longrightarrow>
      d \<in> set (concat (map (\<lambda>(lang, pattern).
        if js_test pattern code then
          [\<lparr>language = Some lang,
            confidence = (case js_match pattern code of
                            Some matches \<Rightarrow> min (real (length matches) * 0.2) 1.0
                          | None \<Rightarrow> 0)\<rparr>]
        else []) ps)) \<longleftrightarrow>
     (\<exists>(l, re) \<in> set ps. js_test re code \<and>
         d = \<lparr>language = Some l, confidence = conf_of re\<rparr>)" for ps
    by (induction ps) (auto simp: detection_confidence)
  from this [OF patterns_not_global] show ?thesis by (simp add: detections_def)
qed

lemma pattern_confidences:
  "conf_of javascript_rx = 0.2" "conf_of typescript_rx = 0.2" "conf_of python_rx = 0.2"
  "conf_of java_rx = 0.2" "conf_of csharp_rx = 0.2" "conf_of go_rx = 0.2"
  "conf_of rust_rx = 0.2" "conf_of cpp_rx = 0.2" "conf_of c_rx = 0.2" "conf_of html_rx = 0.2"
  "conf_of css_rx = 0.2" "conf_of json_rx = 0.2" "conf_of yaml_rx = 0.2"
  "conf_of markdown_rx = 0.2" "conf_of sql_rx = 0.2" "conf_of shell_rx = 0.4"
  by (simp_all add: pattern_defs rx_def conf_of_def sp_def wd_def anychar_def)

lemma patterns_conf_of:
  "\<forall>(l, re) \<in> set LANGUAGE_PATTERNS.
      (l = js ''shell'' \<and> re = shell_rx \<and> conf_of re = 0.4) \<or>
      (l \<noteq> js ''shell'' \<and> conf_of re = 0.2)"
  by (simp add: LANGUAGE_PATTERNS_def pattern_confidences js_def cu_def)

lemma pattern_conf_of:
  assumes "(l, re) \<in> set LANGUAGE_PATTERNS"
  shows "(l = js ''shell'' \<and> re = shell_rx \<and> conf_of re = 0.4) \<or>
         (l \<noteq> js ''shell'' \<and> conf_of re = 0.2)"
proof -
  from patterns_conf_of assms
  have "case (l, re) of (l, re) \<Rightarrow>
      (l = js ''shell'' \<and> re = shell_rx \<and> conf_of re = 0.4) \<or>
      (l \<noteq> js ''shell'' \<and> conf_of re = 0.2)"
    by (rule bspec)
  then show ?thesis by (simp only: prod.case)
qed

lemma detections_cases:
  assumes "d \<in> set (detections code)"
  shows "(d = shell_detection \<and> js_test shell_rx code) \<or> confidence d = 0.2"
proof -
  from assms have "\<exists>(l, re) \<in> set LANGUAGE_PATTERNS. js_test re code \<and>
         d = \<lparr>language = Some l, confidence = conf_of re\<rparr>"
    by (simp only: detections_set)
  then obtain l re where m: "(l, re) \<in> set LANGUAGE_PATTERNS" and t: "js_test re code"
      and d: "d = \<lparr>language = Some l, confidence = conf_of re\<rparr>"
    by (elim bexE) (simp split: prod.splits)
  from pattern_conf_of [OF m] show ?thesis
  proof
    assume h: "l = js ''shell'' \<and> re = shell_rx \<and> conf_of re = 0.4"
    then have l: "l = js ''shell''" and re: "re = shell_rx" by blast+
    have "d = shell_detection"
      unfolding d l re shell_detection_def by (simp add: pattern_confidences)
    moreover have "js_test shell_rx code" using t unfolding re .
    ultimately show ?thesis by simp
  next
    assume "l \<noteq> js ''shell'' \<and> conf_of re = 0.2"
    with d show ?thesis by simp
  qed
qed

lemma shell_detected:
  assumes "js_test shell_rx code"
  shows "shell_detection \<in> set (detections code)"
proof -
  have "(js ''shell'', shell_rx) \<in> set LANGUAGE_PATTERNS" by (simp add: LANGUAGE_PATTERNS_def)
  moreover have "conf_of shell_rx = 0.4" by (rule pattern_confidences)
  ultimately have "\<exists>(l, re) \<in> set LANGUAGE_PATTERNS. js_test re code \<and>
         shell_detection = \<lparr>language = Some l, confidence = conf_of re\<rparr>"
    using assms by (intro bexI [of _ "(js ''shell'', shell_rx)"]) (simp_all add: shell_detection_def)
  then show ?thesis by (simp only: detections_set)
qed

text \<open>
  The pattern of the shell is the only one with a capturing group, so the only one whose
  confidence, 0.4, exceeds 0.3: \<open>detectLanguage\<close> detects the shell or nothing.
\<close>

lemma detectLanguage_only_shell:
  "detectLanguage code =
     (if code \<noteq> [] \<and> trim code \<noteq> [] \<and> js_test shell_rx code then shell_detection
      else no_detection)"
proof (cases "code = [] \<or> trim code = []")
  case True
  then show ?thesis by (auto simp: detectLanguage_def)
next
  case False
  let ?f = "\<lambda>d. - confidence d"
  let ?S = "sort_key ?f (detections code)"
  have set_S: "set ?S = set (detections code)" by simp
  have sorted_S: "sorted (map ?f ?S)" by simp
  show ?thesis
  proof (cases ?S)
    case Nil
    then have "detections code = []" using set_S by simp
    then have "\<not> js_test shell_rx code" using shell_detected by fastforce
    with Nil False show ?thesis by (simp add: detectLanguage_def)
  next
    case (Cons d ds)
    then have d_in: "d \<in> set (detections code)" using set_S by (metis list.set_intros(1))
    have top: "confidence x \<le> confidence d" if "x \<in> set (detections code)" for x
    proof -
      from that have "x \<in> set (d # ds)" using set_S Cons by simp
      moreover have "sorted (map ?f (d # ds))" using sorted_S Cons by simp
      ultimately show ?thesis by auto
    qed
    show ?thesis
    proof (cases "js_test shell_rx code")
      case True
      then have "confidence shell_detection \<le> confidence d" using top shell_detected by blast
      then have "0.4 \<le> confidence d" by (simp add: shell_detection_def)
      with detections_cases [OF d_in] have "d = shell_detection" by auto
      with Cons False True show ?thesis by (simp add: detectLanguage_def shell_detection_def)
    next
      case no: False
      with detections_cases [OF d_in] have "confidence d = 0.2" by simp
      with Cons False no show ?thesis by (simp add: detectLanguage_def)
    qed
  qed
qed

lemma trim_blank: "trim s = [] \<longleftrightarrow> list_all is_space s"
proof -
  have "trim s = [] \<longleftrightarrow> (\<forall>x \<in> set (dropWhile is_space s). is_space x)"
    by (simp add: trim_def dropWhile_eq_Nil_conv)
  also have "\<dots> \<longleftrightarrow> (\<forall>x \<in> set s. is_space x)"
  proof
    assume h: "\<forall>x \<in> set (dropWhile is_space s). is_space x"
    show "\<forall>x \<in> set s. is_space x"
    proof
      fix x assume "x \<in> set s"
      moreover have "set (takeWhile is_space s @ dropWhile is_space s) = set s"
        by (simp only: takeWhile_dropWhile_id)
      then have "set s = set (takeWhile is_space s) \<union> set (dropWhile is_space s)"
        by (simp only: set_append)
      ultimately have "x \<in> set (takeWhile is_space s) \<or> x \<in> set (dropWhile is_space s)"
        by blast
      then show "is_space x" using h by (auto dest: set_takeWhileD)
    qed
  next
    assume "\<forall>x \<in> set s. is_space x"
    then show "\<forall>x \<in> set (dropWhile is_space s). is_space x"
      by (auto dest: set_dropWhileD)
  qed
  finally show ?thesis by (simp add: list_all_iff)
qed

lemma detectLanguage_range:
  "detectLanguage code = shell_detection \<or> detectLanguage code = no_detection"
  by (simp add: detectLanguage_only_shell)

text \<open>
  C7. The confidence of \<open>detectLanguage\<close> lies between 0 and 1, and a code that is empty
  or consists of white space only has the confidence 0 and no language. The function is
  total: it has no failure.
\<close>

theorem C7_detectLanguage_confidence:
  "0 \<le> confidence (detectLanguage code) \<and> confidence (detectLanguage code) \<le> 1 \<and>
   (code = [] \<or> list_all is_space code \<longrightarrow>
      detectLanguage code = \<lparr>language = None, confidence = 0\<rparr>)"
proof (intro conjI impI)
  from detectLanguage_range [of code]
  show "0 \<le> confidence (detectLanguage code)"
    by (rule disjE) (simp_all add: shell_detection_def no_detection_def)
  from detectLanguage_range [of code]
  show "confidence (detectLanguage code) \<le> 1"
    by (rule disjE) (simp_all add: shell_detection_def no_detection_def)
next
  assume "code = [] \<or> list_all is_space code"
  then have "code = [] \<or> trim code = []" by (simp add: trim_blank)
  then show "detectLanguage code = \<lparr>language = None, confidence = 0\<rparr>"
    unfolding detectLanguage_def no_detection_def by simp
qed

text \<open>C7 at a code of two spaces.\<close>

theorem C7_detectLanguage_confidence_witness:
  "(js ''  '' = [] \<or> list_all is_space (js ''  '')) \<and>
   detectLanguage (js ''  '') = \<lparr>language = None, confidence = 0\<rparr> \<and>
   0 \<le> confidence (detectLanguage (js ''  '')) \<and> confidence (detectLanguage (js ''  '')) \<le> 1"
  using C7_detectLanguage_confidence [of "js ''  ''"] by (simp add: js_def cu_def is_space_def)

subsection \<open>The detector on a code with two matches\<close>

lemmas rx_eval = js_test_def match_here_def match_array_def rx_def lit_def plus_def opt_def
  sp_def wd_def anychar_def step_char_def canonicalize_def is_space_def is_word_def
  is_line_terminator_def progress_def capture_def js_def cu_def dquote_def squote_def

lemma at_most_5:
  "at_most 5 r =
     opt (RSeq r (opt (RSeq r (opt (RSeq r (opt (RSeq r (opt (RSeq r REps)))))))))"
  by (simp add: eval_nat_numeral)

lemma two_declarations_javascript: "js_test javascript_rx two_declarations"
  by (simp add: rx_eval javascript_rx_def two_declarations_def at_most_5)

lemma two_declarations_typescript: "\<not> js_test typescript_rx two_declarations"
  by (simp add: rx_eval typescript_rx_def two_declarations_def at_most_5)

lemma two_declarations_python: "\<not> js_test python_rx two_declarations"
  by (simp add: rx_eval python_rx_def two_declarations_def at_most_5)

lemma two_declarations_java: "\<not> js_test java_rx two_declarations"
  by (simp add: rx_eval java_rx_def two_declarations_def at_most_5)

lemma two_declarations_csharp: "\<not> js_test csharp_rx two_declarations"
  by (simp add: rx_eval csharp_rx_def two_declarations_def at_most_5)

lemma two_declarations_go: "\<not> js_test go_rx two_declarations"
  by (simp add: rx_eval go_rx_def two_declarations_def at_most_5)

lemma two_declarations_rust: "\<not> js_test rust_rx two_declarations"
  by (simp add: rx_eval rust_rx_def two_declarations_def at_most_5)

lemma two_declarations_cpp: "\<not> js_test cpp_rx two_declarations"
  by (simp add: rx_eval cpp_rx_def two_declarations_def at_most_5)

lemma two_declarations_c: "\<not> js_test c_rx two_declarations"
  by (simp add: rx_eval c_rx_def two_declarations_def at_most_5)

lemma two_declarations_html: "\<not> js_test html_rx two_declarations"
  by (simp add: rx_eval html_rx_def two_declarations_def at_most_5)

lemma two_declarations_css: "\<not> js_test css_rx two_declarations"
  by (simp add: rx_eval css_rx_def two_declarations_def at_most_5)

lemma two_declarations_json: "\<not> js_test json_rx two_declarations"
  by (simp add: rx_eval json_rx_def two_declarations_def at_most_5)

lemma two_declarations_yaml: "\<not> js_test yaml_rx two_declarations"
  by (simp add: rx_eval yaml_rx_def two_declarations_def at_most_5)

lemma two_declarations_markdown: "\<not> js_test markdown_rx two_declarations"
  by (simp add: rx_eval markdown_rx_def two_declarations_def at_most_5)

lemma two_declarations_sql: "\<not> js_test sql_rx two_declarations"
  by (simp add: rx_eval sql_rx_def two_declarations_def at_most_5)

lemma two_declarations_shell: "\<not> js_test shell_rx two_declarations"
  by (simp add: rx_eval shell_rx_def two_declarations_def at_most_5)

lemmas two_declarations_tests = two_declarations_javascript two_declarations_typescript
  two_declarations_python two_declarations_java two_declarations_csharp two_declarations_go
  two_declarations_rust two_declarations_cpp two_declarations_c two_declarations_html
  two_declarations_css two_declarations_json two_declarations_yaml two_declarations_markdown
  two_declarations_sql two_declarations_shell

lemma two_declarations_count: "count_matches javascript_rx two_declarations = 2"
  by (simp add: count_matches_def matches_of_def scan.simps rx_eval javascript_rx_def
      two_declarations_def)

lemma two_declarations_not_blank: "two_declarations \<noteq> [] \<and> trim two_declarations \<noteq> []"
  by (simp add: two_declarations_def trim_def js_def cu_def is_space_def)

text \<open>
  C1. For the code \<open>var a; var b;\<close> the pattern of JavaScript has two matches, so the
  detector of the claim returns JavaScript with the confidence 0.4; \<open>detectLanguage\<close>
  returns no language and the confidence 0, because \<open>match\<close> without the \<open>g\<close> flag
  returns the array of the first match, whose length is 1.
\<close>

theorem C1_detectLanguage_failing_input:
  "detectLanguage two_declarations = \<lparr>language = None, confidence = 0\<rparr> \<and>
   spec_detectLanguage two_declarations =
     \<lparr>language = Some (js ''javascript''), confidence = 0.4\<rparr>"
proof
  show "detectLanguage two_declarations = \<lparr>language = None, confidence = 0\<rparr>"
    by (simp add: detectLanguage_only_shell two_declarations_tests no_detection_def)
  have "spec_detections two_declarations =
      [\<lparr>language = Some (js ''javascript''), confidence = 0.4\<rparr>]"
    by (simp add: spec_detections_def LANGUAGE_PATTERNS_def two_declarations_tests
        two_declarations_count)
  then show "spec_detectLanguage two_declarations =
      \<lparr>language = Some (js ''javascript''), confidence = 0.4\<rparr>"
    using two_declarations_not_blank by (simp add: spec_detectLanguage_def)
qed

section \<open>Properties of the formatter\<close>

lemma grows_withI:
  assumes "\<And>st st'. st' \<in> set (m st) \<Longrightarrow> dom (snd (snd st)) \<union> G \<subseteq> dom (snd (snd st'))"
  shows "grows_with G m"
  unfolding grows_with_def using assms by blast

lemma grows_withD:
  assumes "grows_with G m" "st' \<in> set (m st)"
  shows "dom (snd (snd st)) \<union> G \<subseteq> dom (snd (snd st'))"
  using assms unfolding grows_with_def by blast

lemma grows_with_mono: "grows_with G m \<Longrightarrow> H \<subseteq> G \<Longrightarrow> grows_with H m"
  unfolding grows_with_def by blast

lemma grows_with_seq:
  assumes "grows_with A m1" "grows_with B m2"
  shows "grows_with (A \<union> B) (\<lambda>st. concat (map m2 (m1 st)))"
proof (rule grows_withI)
  fix st st' assume "st' \<in> set (concat (map m2 (m1 st)))"
  then obtain st1 where 1: "st1 \<in> set (m1 st)" and 2: "st' \<in> set (m2 st1)" by auto
  from grows_withD [OF assms(1) 1] grows_withD [OF assms(2) 2]
  show "dom (snd (snd st)) \<union> (A \<union> B) \<subseteq> dom (snd (snd st'))" by blast
qed

lemma grows_with_alt:
  assumes "grows_with A m1" "grows_with B m2"
  shows "grows_with (A \<inter> B) (\<lambda>st. m1 st @ m2 st)"
proof (rule grows_withI)
  fix st st' assume "st' \<in> set (m1 st @ m2 st)"
  then consider "st' \<in> set (m1 st)" | "st' \<in> set (m2 st)" by auto
  then show "dom (snd (snd st)) \<union> (A \<inter> B) \<subseteq> dom (snd (snd st'))"
  proof cases
    case 1 from grows_withD [OF assms(1) 1] show ?thesis by blast
  next
    case 2 from grows_withD [OF assms(2) 2] show ?thesis by blast
  qed
qed

lemma grows_with_iter_greedy:
  assumes "grows_with A m"
  shows "grows_with {} (iter_greedy n m)"
proof (induction n)
  case 0
  show ?case by (rule grows_withI) simp
next
  case (Suc n)
  show ?case
  proof (rule grows_withI)
    fix st st' assume "st' \<in> set (iter_greedy (Suc n) m st)"
    then consider "st' = st" | st1 where "st1 \<in> set (m st)" "st' \<in> set (iter_greedy n m st1)"
      by auto
    then show "dom (snd (snd st)) \<union> {} \<subseteq> dom (snd (snd st'))"
    proof cases
      case 1 then show ?thesis by simp
    next
      case 2
      from grows_withD [OF assms 2(1)] grows_withD [OF Suc 2(2)] show ?thesis by blast
    qed
  qed
qed

lemma grows_with_iter_lazy:
  assumes "grows_with A m"
  shows "grows_with {} (iter_lazy n m)"
proof (induction n)
  case 0
  show ?case by (rule grows_withI) simp
next
  case (Suc n)
  show ?case
  proof (rule grows_withI)
    fix st st' assume "st' \<in> set (iter_lazy (Suc n) m st)"
    then consider "st' = st" | st1 where "st1 \<in> set (m st)" "st' \<in> set (iter_lazy n m st1)"
      by auto
    then show "dom (snd (snd st)) \<union> {} \<subseteq> dom (snd (snd st'))"
    proof cases
      case 1 then show ?thesis by simp
    next
      case 2
      from grows_withD [OF assms 2(1)] grows_withD [OF Suc 2(2)] show ?thesis by blast
    qed
  qed
qed

lemma grows_with_capture:
  assumes "grows_with A m"
  shows "grows_with (insert n A) (\<lambda>st. map (capture n st) (m st))"
proof (rule grows_withI)
  fix st st' assume "st' \<in> set (map (capture n st) (m st))"
  then obtain st1 where 1: "st1 \<in> set (m st)" and 2: "st' = capture n st st1" by auto
  from 2 have "dom (snd (snd st')) = insert n (dom (snd (snd st1)))"
    by (cases st1) (simp add: capture_def)
  with grows_withD [OF assms 1]
  show "dom (snd (snd st)) \<union> insert n A \<subseteq> dom (snd (snd st'))" by blast
qed

lemma grows_with_step_char: "grows_with {} (step_char ok)"
  by (rule grows_withI) (auto simp: step_char_def split: list.splits if_splits)

lemma rx_match_grows: "grows_with (must_groups r) (rx_match ic ml r)"
proof (induction r)
  case REps
  show ?case by (rule grows_withI) simp
next
  case (RChr c)
  show ?case by (simp add: grows_with_step_char)
next
  case RDot
  show ?case by (simp add: grows_with_step_char)
next
  case (RClass neg cs)
  show ?case by (simp add: grows_with_step_char)
next
  case RBol
  show ?case by (rule grows_withI) (auto split: option.splits if_splits)
next
  case REol
  show ?case by (rule grows_withI) (auto split: list.splits if_splits)
next
  case (RSeq a b)
  then show ?case by (simp add: grows_with_seq)
next
  case (RAlt a b)
  then show ?case by (simp add: grows_with_alt)
next
  case (RStar a)
  show ?case
  proof (rule grows_withI)
    fix st st' assume "st' \<in> set (rx_match ic ml (RStar a) st)"
    then have "st' \<in> set (iter_greedy (length (fst (snd st))) (rx_match ic ml a) st)" by simp
    from grows_withD [OF grows_with_iter_greedy [OF RStar] this]
    show "dom (snd (snd st)) \<union> must_groups (RStar a) \<subseteq> dom (snd (snd st'))" by simp
  qed
next
  case (RLazyStar a)
  show ?case
  proof (rule grows_withI)
    fix st st' assume "st' \<in> set (rx_match ic ml (RLazyStar a) st)"
    then have "st' \<in> set (iter_lazy (length (fst (snd st))) (rx_match ic ml a) st)" by simp
    from grows_withD [OF grows_with_iter_lazy [OF RLazyStar] this]
    show "dom (snd (snd st)) \<union> must_groups (RLazyStar a) \<subseteq> dom (snd (snd st'))" by simp
  qed
next
  case (RGroup n a)
  then show ?case by (simp add: grows_with_capture)
qed

text \<open>In the array of a match every group that the pattern cannot skip has a value.\<close>

lemma match_here_groups:
  assumes "match_here re prev s = Some st" "n \<in> must_groups (source re)"
    "1 \<le> n" "n \<le> ngroups (source re)"
  shows "arg (match_array re s st) n \<noteq> None"
proof -
  from assms(1) have "st \<in> set (rx_match (ignoreCase re) (multiline re) (source re)
      (prev, s, Map.empty))"
    by (auto simp: match_here_def split: list.splits)
  from grows_withD [OF rx_match_grows this] assms(2) have "n \<in> dom (snd (snd st))" by auto
  then have "snd (snd st) n \<noteq> None" by auto
  moreover from assms(3,4) have "arg (match_array re s st) n = snd (snd st) n"
    by (cases n) (simp_all add: arg_def match_array_def nth_Cons' del: upt_Suc)
  ultimately show ?thesis by simp
qed

lemma scan_groups:
  assumes "Match a \<in> set (scan re prev s)" "n \<in> must_groups (source re)"
    "1 \<le> n" "n \<le> ngroups (source re)"
  shows "arg a n \<noteq> None"
  using assms
proof (induction re prev s rule: scan.induct)
  case (1 re prev s)
  note g = "1.prems"(2,3,4)
  show ?case
  proof (cases "match_here re prev s")
    case None
    with "1.prems"(1) obtain x xs where s: "s = x # xs" and m: "Match a \<in> set (scan re (Some x) xs)"
      by (subst (asm) scan.simps) (auto split: list.splits)
    from "1.IH"(1) [OF None s m g] show ?thesis .
  next
    case (Some st)
    from "1.prems"(1) Some
    consider "a = match_array re s st"
      | "length (fst (snd st)) < length s" "Match a \<in> set (scan re (fst st) (fst (snd st)))"
      | x xs where "\<not> length (fst (snd st)) < length s" "s = x # xs"
          "Match a \<in> set (scan re (Some x) xs)"
      by (subst (asm) scan.simps) (auto split: list.splits if_splits)
    then show ?thesis
    proof cases
      case 1
      with match_here_groups [OF Some g] show ?thesis by simp
    next
      case 2
      from "1.IH"(2) [OF Some 2 g] show ?thesis .
    next
      case 3
      from "1.IH"(3) [OF Some 3 g] show ?thesis .
    qed
  qed
qed


lemma must_groups_lit [simp]: "must_groups (lit s) = {}"
  unfolding lit_def by (induction s) simp_all

lemma must_groups_seqs [simp]: "must_groups (seqs rs) = (\<Union>r \<in> set rs. must_groups r)"
  by (induction rs) simp_all

lemma collect_ok:
  assumes "\<And>r. r \<in> set rs \<Longrightarrow> \<exists>v. r = Inr v"
  shows "\<exists>out. collect rs = Inr out"
  using assms
proof (induction rs rule: collect.induct)
  case 1
  show ?case by simp
next
  case (2 e rs)
  from "2.prems" [of "Inl e"] show ?case by simp
next
  case (3 x rs)
  then obtain y where "collect rs = Inr y" by auto
  then show ?case by simp
qed

lemma js_replace_ok:
  assumes "\<And>a. Match a \<in> set (scan re None s) \<Longrightarrow> \<exists>v. f a = Inr v"
  shows "\<exists>out. js_replace re f s = Inr out"
  unfolding js_replace_def
proof (rule collect_ok)
  fix r assume "r \<in> set (map (\<lambda>t. case t of Copy c \<Rightarrow> Inr [c] | Match a \<Rightarrow> f a) (scan re None s))"
  then obtain t where t: "t \<in> set (scan re None s)"
    and r: "r = (case t of Copy c \<Rightarrow> Inr [c] | Match a \<Rightarrow> f a)" by auto
  show "\<exists>v. r = Inr v"
  proof (cases t)
    case (Copy c)
    with r show ?thesis by simp
  next
    case (Match a)
    with t assms [of a] r show ?thesis by simp
  qed
qed

lemma fence_replace_ok: "\<exists>out. js_replace fence_rx fence_cb s = Inr out"
proof (rule js_replace_ok)
  fix a assume "Match a \<in> set (scan fence_rx None s)"
  then have "arg a 2 \<noteq> None"
    by (rule scan_groups) (simp_all add: fence_rx_def rx_def opt_def wd_def sp_def anychar_def)
  then show "\<exists>v. fence_cb a = Inr v" by (auto simp: fence_cb_def Let_def)
qed

lemma function_results_replace_ok:
  "\<exists>out. js_replace function_results_rx function_results_cb s = Inr out"
proof (rule js_replace_ok)
  fix a assume "Match a \<in> set (scan function_results_rx None s)"
  then have "arg a 1 \<noteq> None"
    by (rule scan_groups) (simp_all add: function_results_rx_def rx_def anychar_def)
  then show "\<exists>v. function_results_cb a = Inr v" by (auto simp: function_results_cb_def)
qed

lemma snippet_replace_ok: "\<exists>out. js_replace snippet_rx snippet_cb s = Inr out"
proof (rule js_replace_ok)
  fix a assume m: "Match a \<in> set (scan snippet_rx None s)"
  then have "arg a 1 \<noteq> None"
    by (rule scan_groups) (simp_all add: snippet_rx_def rx_def anychar_def)
  moreover from m have "arg a 2 \<noteq> None"
    by (rule scan_groups) (simp_all add: snippet_rx_def rx_def anychar_def)
  ultimately show "\<exists>v. snippet_cb a = Inr v" by (auto simp: snippet_cb_def Let_def)
qed

lemma enhanceOutput_total: "\<exists>out. enhanceOutput text = Inr out"
proof -
  obtain e1 where 1: "js_replace fence_rx fence_cb text = Inr e1"
    using fence_replace_ok by blast
  obtain e2 where 2: "js_replace function_results_rx function_results_cb e1 = Inr e2"
    using function_results_replace_ok by blast
  obtain e3 where 3: "js_replace snippet_rx snippet_cb e2 = Inr e3"
    using snippet_replace_ok by blast
  from 1 2 3 show ?thesis by (simp add: enhanceOutput_def bind_def)
qed

lemma formatOutput_total: "\<exists>out. formatOutput ext text format = Inr out"
proof (cases format)
  case fmt_enhanced
  obtain out where "enhanceOutput text = Inr out" using enhanceOutput_total by blast
  with fmt_enhanced show ?thesis by (simp add: formatOutput_def wrap_failure_def)
next
  case fmt_markdown
  obtain out where "enhanceOutput text = Inr out" using enhanceOutput_total by blast
  with fmt_markdown show ?thesis by (simp add: formatOutput_def wrap_failure_def formatMarkdown_def)
qed (simp_all add: formatOutput_def wrap_failure_def)

text \<open>
  C4, as the claim states it, fails: when the renderer throws, \<open>formatOutput\<close> with the
  format \<open>html\<close> returns the text it was given, not an error.
\<close>

theorem C4_formatOutput_counterexample:
  "marked_parse failing_externals (js ''# Title'') = Inl (Thrown (js ''failed'')) \<and>
   formatOutput failing_externals (js ''# Title'') fmt_html = Inr (js ''# Title'')"
  by (simp add: failing_externals_def formatOutput_def wrap_failure_def formatHTML_def
      bind_def js_def)

text \<open>What \<open>highlightCode\<close> returns, for every language and every result of the library.\<close>

lemma highlightCode_cases:
  "highlightCode ext code lang =
     (if lang \<noteq> [] then
        (case hljs_getLanguage ext lang of
           Inl e \<Rightarrow> escapeHtml code
         | Inr True \<Rightarrow>
             (case hljs_highlight ext code lang of Inl e \<Rightarrow> escapeHtml code | Inr v \<Rightarrow> v)
         | Inr False \<Rightarrow>
             (case hljs_highlightAuto ext code of Inl e \<Rightarrow> escapeHtml code | Inr v \<Rightarrow> v))
      else (case hljs_highlightAuto ext code of Inl e \<Rightarrow> escapeHtml code | Inr v \<Rightarrow> v))"
  by (simp add: highlightCode_def bind_def split: sum.splits bool.splits)

text \<open>
  C4, amended. \<open>formatOutput\<close> with the format \<open>default\<close> returns the text unchanged. It
  has no failure for any text and format: under \<open>html\<close> a failure of the renderer is
  caught in \<open>formatHTML\<close> and the caller receives the text unformatted; a failure of the
  highlighter, in \<open>getLanguage\<close>, \<open>highlight\<close> or \<open>highlightAuto\<close> and for every language,
  is caught in \<open>highlightCode\<close>, which returns the escaped code, and returns what the
  highlighter returns when it does not fail; the transforms of \<open>enhanced\<close> and
  \<open>markdown\<close> do not fail. The \<open>catch\<close> of \<open>formatOutput\<close> turns a failure that reaches
  it into a \<open>ProcessingError\<close> with the format.
\<close>

theorem C4_formatOutput_failures:
  "formatOutput ext text fmt_default = Inr text \<and>
   (\<exists>out. formatOutput ext text format = Inr out) \<and>
   (marked_parse ext text = Inl e \<longrightarrow> formatOutput ext text fmt_html = Inr text) \<and>
   (lang \<noteq> [] \<longrightarrow> hljs_getLanguage ext lang = Inl e \<longrightarrow>
      highlightCode ext code lang = escapeHtml code) \<and>
   (lang \<noteq> [] \<longrightarrow> hljs_getLanguage ext lang = Inr True \<longrightarrow>
      hljs_highlight ext code lang = Inl e \<longrightarrow>
      highlightCode ext code lang = escapeHtml code) \<and>
   (lang \<noteq> [] \<longrightarrow> hljs_getLanguage ext lang = Inr True \<longrightarrow>
      hljs_highlight ext code lang = Inr v \<longrightarrow> highlightCode ext code lang = v) \<and>
   (lang = [] \<or> hljs_getLanguage ext lang = Inr False \<longrightarrow>
      hljs_highlightAuto ext code = Inl e \<longrightarrow>
      highlightCode ext code lang = escapeHtml code) \<and>
   (lang = [] \<or> hljs_getLanguage ext lang = Inr False \<longrightarrow>
      hljs_highlightAuto ext code = Inr v \<longrightarrow> highlightCode ext code lang = v) \<and>
   wrap_failure format (Inl e) =
     Inl (ProcessingError (js ''Failed to format output'') (Some (js ''FORMAT_ERROR''))
           (Some format))"
proof (intro conjI impI)
  show "formatOutput ext text fmt_default = Inr text"
    by (simp add: formatOutput_def wrap_failure_def)
  show "\<exists>out. formatOutput ext text format = Inr out" by (rule formatOutput_total)
  show "formatOutput ext text fmt_html = Inr text" if "marked_parse ext text = Inl e"
    using that by (simp add: formatOutput_def wrap_failure_def formatHTML_def bind_def)
  show "wrap_failure format (Inl e) =
     Inl (ProcessingError (js ''Failed to format output'') (Some (js ''FORMAT_ERROR''))
           (Some format))"
    by (simp add: wrap_failure_def)
next
  assume "lang = [] \<or> hljs_getLanguage ext lang = Inr False"
    and "hljs_highlightAuto ext code = Inl e"
  then show "highlightCode ext code lang = escapeHtml code"
    by (auto simp: highlightCode_cases)
next
  assume "lang = [] \<or> hljs_getLanguage ext lang = Inr False"
    and "hljs_highlightAuto ext code = Inr v"
  then show "highlightCode ext code lang = v"
    by (auto simp: highlightCode_cases)
qed (simp_all add: highlightCode_cases)

text \<open>
  C4, amended, for libraries that throw: the renderer; \<open>getLanguage\<close>; \<open>highlight\<close> for a
  language that is known; \<open>highlightAuto\<close> for a language that is not known and for no
  language; and for a highlighter that returns.
\<close>

theorem C4_formatOutput_failures_witness:
  "marked_parse failing_externals (js ''# Title'') = Inl (Thrown (js ''failed'')) \<and>
   formatOutput failing_externals (js ''# Title'') fmt_html = Inr (js ''# Title'') \<and>
   js ''ts'' \<noteq> [] \<and>
   highlightCode failing_externals (js ''a<b'') (js ''ts'') = escapeHtml (js ''a<b'') \<and>
   highlightCode
     (externals_with (Inr []) (Inr True) (Inl (Thrown (js ''failed''))) (Inr (js ''auto'')))
     (js ''a<b'') (js ''ts'') = escapeHtml (js ''a<b'') \<and>
   highlightCode
     (externals_with (Inr []) (Inr True) (Inr (js ''marked up'')) (Inr (js ''auto'')))
     (js ''a<b'') (js ''ts'') = js ''marked up'' \<and>
   highlightCode
     (externals_with (Inr []) (Inr False) (Inr (js ''marked up'')) (Inl (Thrown (js ''failed''))))
     (js ''a<b'') (js ''ts'') = escapeHtml (js ''a<b'') \<and>
   highlightCode failing_externals (js ''a<b'') [] = escapeHtml (js ''a<b'') \<and>
   highlightCode
     (externals_with (Inr []) (Inr False) (Inr (js ''marked up'')) (Inr (js ''auto'')))
     (js ''a<b'') (js ''ts'') = js ''auto''"
  using
    C4_formatOutput_failures [of failing_externals "js ''# Title''" fmt_html
      "Thrown (js ''failed'')" "js ''ts''" "js ''a<b''"]
    C4_formatOutput_failures [of
      "externals_with (Inr []) (Inr True) (Inl (Thrown (js ''failed''))) (Inr (js ''auto''))"
      "[]" fmt_html "Thrown (js ''failed'')" "js ''ts''" "js ''a<b''"]
    C4_formatOutput_failures [of
      "externals_with (Inr []) (Inr True) (Inr (js ''marked up'')) (Inr (js ''auto''))"
      "[]" fmt_html "Thrown (js ''failed'')" "js ''ts''" "js ''a<b''" "js ''marked up''"]
    C4_formatOutput_failures [of
      "externals_with (Inr []) (Inr False) (Inr (js ''marked up'')) (Inl (Thrown (js ''failed'')))"
      "[]" fmt_html "Thrown (js ''failed'')" "js ''ts''" "js ''a<b''"]
    C4_formatOutput_failures [of failing_externals "[]" fmt_html
      "Thrown (js ''failed'')" "[]" "js ''a<b''"]
    C4_formatOutput_failures [of
      "externals_with (Inr []) (Inr False) (Inr (js ''marked up'')) (Inr (js ''auto''))"
      "[]" fmt_html "Thrown (js ''failed'')" "js ''ts''" "js ''a<b''" "js ''auto''"]
  by (simp add: failing_externals_def externals_with_def js_def)

section \<open>Properties of the chunking\<close>

lemma concat_pieces: "0 < n \<Longrightarrow> concat (pieces n s) = s"
proof (induction n s rule: pieces.induct)
  case (1 n s)
  show ?case
  proof (cases "s = []")
    case True
    then show ?thesis by (simp add: pieces.simps)
  next
    case False
    with 1 have "concat (pieces n (drop n s)) = drop n s" by simp
    with False "1.prems" show ?thesis by (subst pieces.simps) simp
  qed
qed

lemma strip_with_overlap: "concat (map strip_prefix (with_overlap i prev ps)) = concat ps"
  by (induction ps arbitrary: i prev) (auto simp: strip_prefix_def Let_def split: option.splits)

lemma chunk_empty: "0 < maxSize \<Longrightarrow> chunkText [] maxSize = Inr []"
  by (simp add: chunkText_def pieces.simps)

lemma chunk_short:
  "0 < maxSize \<Longrightarrow> text \<noteq> [] \<Longrightarrow> int (length text) \<le> maxSize \<Longrightarrow>
     chunkText text maxSize =
       Inr [\<lparr>content = text, index = 0, hasContext = False, contextPrefix = None\<rparr>]"
  by (simp add: chunkText_def pieces.simps [of _ "text"] pieces.simps [of _ "[]"])

text \<open>
  C2. For a \<open>maxSize\<close> of at least \<open>MIN_CHUNK_SIZE\<close>, \<open>chunkText\<close> returns chunks, and
  the contents of the chunks with their context prefixes stripped, put together in order,
  are the text.
\<close>

theorem C2_chunkText_roundtrip:
  assumes "int MIN_CHUNK_SIZE \<le> maxSize"
  shows "\<exists>chunks. chunkText text maxSize = Inr chunks \<and>
           concat (map strip_prefix chunks) = text"
proof -
  from assms have pos: "0 < maxSize" by (simp add: MIN_CHUNK_SIZE_def)
  then have "chunkText text maxSize = Inr (with_overlap 0 None (pieces (nat maxSize) text))"
    by (simp add: chunkText_def)
  moreover from pos have "concat (pieces (nat maxSize) text) = text"
    by (simp add: concat_pieces)
  ultimately show ?thesis by (simp add: strip_with_overlap)
qed

text \<open>C2 for a text of 2500 characters and chunks of 1000.\<close>

theorem C2_chunkText_roundtrip_witness:
  "int MIN_CHUNK_SIZE \<le> 1000 \<and>
   (\<exists>chunks. chunkText (replicate 2500 (cu CHR ''x'')) 1000 = Inr chunks \<and>
      concat (map strip_prefix chunks) = replicate 2500 (cu CHR ''x''))"
  using C2_chunkText_roundtrip [of 1000 "replicate 2500 (cu CHR ''x'')"]
  by (simp add: MIN_CHUNK_SIZE_def)

end
